theory Spec2Isabelle
  imports Main "HOL-Library.Word"
begin

unbundle bit_operations_syntax

section \<open>The compile unit of lldb's symbol layer (\<^verbatim>\<open>lldb/source/Symbol/CompileUnit.cpp\<close>)\<close>

text \<open>
  A shallow embedding of \<^verbatim>\<open>CompileUnit.cpp\<close>. The member functions become functions over
  a record of the object's members; what they mutate is returned updated. Collaborators
  whose code is in other files (the symbol file that parses debug information, the line
  table's searches, address resolution, file comparison) are parameters: the symbol file
  is the record \<open>SymbolFile\<close>, reached through the module, and the others are the fields of
  \<open>Env\<close>. Every statement below holds for all of them.
\<close>

subsection \<open>Values\<close>

type_synonym user_id_t = "64 word"
type_synonym addr_t = "64 word"
type_synonym LanguageType = "32 word"

text \<open>
  Modelled from the spec: the constants of the headers outside this file that the code
  compares with: the unknown language, the line number that stands for no line, and the
  column number that stands for no column (line 332 tests the column against 0).
\<close>

definition eLanguageTypeUnknown :: LanguageType where
  "eLanguageTypeUnknown = 0"

definition UINT32_MAX :: "32 word" where
  "UINT32_MAX = - 1"

definition LLDB_INVALID_LINE_NUMBER :: "32 word" where
  "LLDB_INVALID_LINE_NUMBER = UINT32_MAX"

definition LLDB_INVALID_COLUMN_NUMBER :: "32 word" where
  "LLDB_INVALID_COLUMN_NUMBER = 0"

datatype LazyBool = eLazyBoolCalculate | eLazyBoolNo | eLazyBoolYes

text \<open>
  A \<^verbatim>\<open>FileSpec\<close> is a directory and a file name; \<^verbatim>\<open>==\<close> on two of them is equality of
  the pair. An \<^verbatim>\<open>Address\<close> is a section (by identity) and an offset into it.
\<close>

record FileSpec =
  m_directory :: string
  m_filename :: string

record Address =
  m_section :: "nat option"
  m_offset :: addr_t

record AddressRange =
  m_base_addr :: Address
  m_byte_size :: addr_t

record Declaration =
  decl_file :: FileSpec
  decl_line :: "32 word"
  decl_column :: "16 word"

record LineEntry =
  le_range :: AddressRange
  le_file :: FileSpec
  le_line :: "32 word"
  le_column :: "16 word"

type_synonym LineTable = "LineEntry list"
type_synonym SupportFileList = "FileSpec list"
type_synonym RealpathPrefixes = "string list"

text \<open>
  Modelled from the spec: \<^verbatim>\<open>Block\<close> is declared outside this file. A block may carry
  inline function info, whose call site is a declaration (file, line, column); it has a
  start address and address ranges when they are obtainable, and child blocks. The
  children of a block are its \<^verbatim>\<open>GetFirstChild()\<close> followed by the chain of
  \<^verbatim>\<open>GetSibling()\<close>, and \<^verbatim>\<open>GetParent()\<close> of each of them is that block.
\<close>

record InlineFunctionInfo =
  GetCallSite :: Declaration

datatype Block =
  Block (block_uid: user_id_t) (GetInlinedFunctionInfo: "InlineFunctionInfo option")
    (GetStartAddress: "Address option") (m_ranges: "AddressRange list")
    (m_children: "Block list")

text \<open>
  Modelled from the spec: \<^verbatim>\<open>Block::GetRangeAtIndex\<close> is declared outside this file. The
  call of line 394 hands it the range of the line entry to fill: it writes the block's
  range number \<open>idx\<close> there and returns true when the block has that range, and returns
  false, leaving the range as it was, when it has not.
\<close>

definition GetRangeAtIndex :: "Block \<Rightarrow> nat \<Rightarrow> AddressRange \<Rightarrow> bool \<times> AddressRange" where
  "GetRangeAtIndex blk range_idx rng =
     (if range_idx < length (m_ranges blk) then (True, m_ranges blk ! range_idx)
      else (False, rng))"

record Function =
  GetID :: user_id_t
  GetBlock :: Block

text \<open>
  A symbol context refers to its parts by identity: each pointer of the C++ structure is
  \<open>None\<close> (null) or the identity of the object it points to.
\<close>

record SymbolContext =
  target_sp :: "nat option"
  module_sp :: "nat option"
  comp_unit :: "nat option"
  sc_function :: "user_id_t option"
  sc_block :: "user_id_t option"
  line_entry :: LineEntry
  sc_symbol :: "nat option"

text \<open>
  Modelled from the spec: the source location query (\<^verbatim>\<open>SourceLocationSpec\<close>, declared
  outside this file) is a file, an optional line, an optional column, and the flags
  \<open>check_inlines\<close> and \<open>exact\<close>.
\<close>

record SourceLocationSpec =
  GetFileSpec :: FileSpec
  GetLine :: "32 word option"
  GetColumn :: "16 word option"
  GetCheckInlines :: bool
  GetExactMatch :: bool

subsection \<open>The flags of the lazily parsed fields\<close>

text \<open>
  Modelled from the spec: the helper class \<^verbatim>\<open>Flags\<close> and the masks are declared in
  headers outside this file. The spec describes one two-state flag per lazily resolved
  field, kept in one bitmask; each field has a bit of its own.
\<close>

definition Flags_Set :: "32 word \<Rightarrow> 32 word \<Rightarrow> 32 word" where
  "Flags_Set flags m = flags OR m"

definition Flags_Clear :: "32 word \<Rightarrow> 32 word \<Rightarrow> 32 word" where
  "Flags_Clear flags m = flags AND NOT m"

definition Flags_IsClear :: "32 word \<Rightarrow> 32 word \<Rightarrow> bool" where
  "Flags_IsClear flags b = (flags AND b = 0)"

definition flagsParsedSupportFiles :: "32 word" where
  "flagsParsedSupportFiles = push_bit 2 1"

definition flagsParsedLineTable :: "32 word" where
  "flagsParsedLineTable = push_bit 3 1"

definition flagsParsedLanguage :: "32 word" where
  "flagsParsedLanguage = push_bit 4 1"

definition flagsParsedImportedModules :: "32 word" where
  "flagsParsedImportedModules = push_bit 5 1"

definition flagsParsedDebugMacros :: "32 word" where
  "flagsParsedDebugMacros = push_bit 6 1"

subsection \<open>The compile unit, its module and the symbol file\<close>

text \<open>
  Every parse function of the symbol file is handed the unit itself (\<^verbatim>\<open>*this\<close>, or a
  context whose \<^verbatim>\<open>comp_unit\<close> is \<^verbatim>\<open>this\<close>) and may call the unit's public members while
  it runs. The members of this file that write what the lazy accessors test are the two
  setters, \<^verbatim>\<open>SetLineTable\<close> and \<^verbatim>\<open>SetDebugMacros\<close>, each with a value or with null.
\<close>

datatype unit_call =
  DoSetLineTable "LineTable option"
  | DoSetDebugMacros "nat option"

text \<open>
  What passes between the unit and its collaborators is recorded in \<open>trace\<close>, oldest
  first: each call of a parse function of the symbol file, each call of a setter of the
  unit that the symbol file makes while it parses, and each error reported to a module
  (the module's identity and the file address of the message).
\<close>

datatype event =
  CallParseLanguage
  | CallParseLineTable
  | CallParseDebugMacros
  | CallParseImportedModules
  | CallParseSupportFiles
  | CallParseFunctions
  | CallSetLoadDebugInfoEnabled
  | SymbolFileCalls unit_call
  | ReportError nat addr_t

record CompileUnit =
  this_ptr :: nat
  cu_sym_id :: user_id_t
  m_user_data :: nat
  m_language :: LanguageType
  m_flags :: "32 word"
  m_primary_support_file_sp :: FileSpec
  m_support_files :: SupportFileList
  m_is_optimized :: LazyBool
  m_line_table_up :: "LineTable option"
  m_debug_macros_sp :: "nat option"
  m_imported_modules :: "string list"
  m_functions_by_uid :: "(user_id_t \<times> Function) list"
  trace :: "event list"

text \<open>
  The symbol file answers each parse request from the unit it is handed. The answer of
  a lazy field's parse function is the list of setter calls it makes on the unit, in
  order, and with it what the function delivers otherwise: \<^verbatim>\<open>ParseLanguage\<close> returns the
  language; \<^verbatim>\<open>ParseLineTable\<close> and \<^verbatim>\<open>ParseDebugMacros\<close> deliver nothing but through the
  setters (what they return is ignored, lines 171 and 190); \<^verbatim>\<open>ParseImportedModules\<close> and
  \<^verbatim>\<open>ParseSupportFiles\<close> fill the (empty) list they are given. \<^verbatim>\<open>ParseFunctions\<close> registers
  functions, in the order of the list, through \<^verbatim>\<open>AddFunction\<close>.
\<close>

record SymbolFile =
  ParseLanguage :: "CompileUnit \<Rightarrow> unit_call list \<times> LanguageType"
  ParseLineTable :: "CompileUnit \<Rightarrow> unit_call list"
  ParseDebugMacros :: "CompileUnit \<Rightarrow> unit_call list"
  ParseImportedModules :: "CompileUnit \<Rightarrow> unit_call list \<times> string list"
  ParseSupportFiles :: "CompileUnit \<Rightarrow> unit_call list \<times> SupportFileList"
  ParseFunctions :: "CompileUnit \<Rightarrow> Function list"

record Module =
  module_ptr :: nat
  GetSymbolFile :: "SymbolFile option"

text \<open>
  \<^verbatim>\<open>GetModule()\<close> locks the unit's weak reference to its module: the result, \<open>None\<close> when
  the module is gone, is an argument of every function that asks for it. Dereferencing
  a null module or a null symbol file ends the call with an error.
\<close>

datatype error = NullModule | NullSymbolFile

definition CompileUnit_ctor ::
  "nat \<Rightarrow> nat \<Rightarrow> FileSpec \<Rightarrow> user_id_t \<Rightarrow> LanguageType \<Rightarrow> LazyBool \<Rightarrow> SupportFileList
    \<Rightarrow> CompileUnit" where
  "CompileUnit_ctor this user_data support_file_sp sym_id language is_optimized support_files =
     (let cu = \<lparr> this_ptr = this, cu_sym_id = sym_id, m_user_data = user_data,
                 m_language = language, m_flags = 0,
                 m_primary_support_file_sp = support_file_sp,
                 m_support_files = support_files, m_is_optimized = is_optimized,
                 m_line_table_up = None, m_debug_macros_sp = None,
                 m_imported_modules = [], m_functions_by_uid = [], trace = [] \<rparr>
      in if language \<noteq> eLanguageTypeUnknown
         then cu\<lparr>m_flags := Flags_Set (m_flags cu) flagsParsedLanguage\<rparr>
         else cu)"

subsection \<open>The setters and the lazy accessors\<close>

definition SetLineTable :: "LineTable option \<Rightarrow> CompileUnit \<Rightarrow> CompileUnit" where
  "SetLineTable line_table cu =
     (let cu1 = (if line_table = None
                 then cu\<lparr>m_flags := Flags_Clear (m_flags cu) flagsParsedLineTable\<rparr>
                 else cu\<lparr>m_flags := Flags_Set (m_flags cu) flagsParsedLineTable\<rparr>)
      in cu1\<lparr>m_line_table_up := line_table\<rparr>)"

definition SetDebugMacros :: "nat option \<Rightarrow> CompileUnit \<Rightarrow> CompileUnit" where
  "SetDebugMacros debug_macros_sp cu =
     (let cu1 = (if debug_macros_sp = None
                 then cu\<lparr>m_flags := Flags_Clear (m_flags cu) flagsParsedDebugMacros\<rparr>
                 else cu\<lparr>m_flags := Flags_Set (m_flags cu) flagsParsedDebugMacros\<rparr>)
      in cu1\<lparr>m_debug_macros_sp := debug_macros_sp\<rparr>)"

text \<open>
  The setter calls that a parse function makes on the unit, applied in order; each is
  recorded in the trace.
\<close>

fun apply_call :: "unit_call \<Rightarrow> CompileUnit \<Rightarrow> CompileUnit" where
  "apply_call (DoSetLineTable line_table) cu =
     SetLineTable line_table
       (cu\<lparr>trace := trace cu @ [SymbolFileCalls (DoSetLineTable line_table)]\<rparr>)"
| "apply_call (DoSetDebugMacros debug_macros_sp) cu =
     SetDebugMacros debug_macros_sp
       (cu\<lparr>trace := trace cu @ [SymbolFileCalls (DoSetDebugMacros debug_macros_sp)]\<rparr>)"

definition apply_calls :: "unit_call list \<Rightarrow> CompileUnit \<Rightarrow> CompileUnit" where
  "apply_calls calls cu = fold apply_call calls cu"

definition GetLanguage ::
  "Module option \<Rightarrow> CompileUnit \<Rightarrow> error + (LanguageType \<times> CompileUnit)" where
  "GetLanguage module cu =
     (if m_language cu = eLanguageTypeUnknown then
        (if Flags_IsClear (m_flags cu) flagsParsedLanguage then
           (let cu1 = cu\<lparr>m_flags := Flags_Set (m_flags cu) flagsParsedLanguage\<rparr> in
            case module of
              None \<Rightarrow> Inl NullModule
            | Some m \<Rightarrow>
                (case GetSymbolFile m of
                   None \<Rightarrow> Inr (m_language cu1, cu1)
                 | Some symfile \<Rightarrow>
                     (let cu2 = cu1\<lparr>trace := trace cu1 @ [CallParseLanguage]\<rparr>;
                          answer = ParseLanguage symfile cu2;
                          cu3 = (apply_calls (fst answer) cu2)\<lparr>m_language := snd answer\<rparr>
                      in Inr (m_language cu3, cu3))))
         else Inr (m_language cu, cu))
      else Inr (m_language cu, cu))"

definition GetLineTable ::
  "Module option \<Rightarrow> CompileUnit \<Rightarrow> error + (LineTable option \<times> CompileUnit)" where
  "GetLineTable module cu =
     (if m_line_table_up cu = None then
        (if Flags_IsClear (m_flags cu) flagsParsedLineTable then
           (let cu1 = cu\<lparr>m_flags := Flags_Set (m_flags cu) flagsParsedLineTable\<rparr> in
            case module of
              None \<Rightarrow> Inl NullModule
            | Some m \<Rightarrow>
                (case GetSymbolFile m of
                   None \<Rightarrow> Inr (m_line_table_up cu1, cu1)
                 | Some symfile \<Rightarrow>
                     (let cu2 = cu1\<lparr>trace := trace cu1 @ [CallParseLineTable]\<rparr>;
                          cu3 = apply_calls (ParseLineTable symfile cu2) cu2
                      in Inr (m_line_table_up cu3, cu3))))
         else Inr (m_line_table_up cu, cu))
      else Inr (m_line_table_up cu, cu))"

definition GetDebugMacros ::
  "Module option \<Rightarrow> CompileUnit \<Rightarrow> error + (nat option \<times> CompileUnit)" where
  "GetDebugMacros module cu =
     (if m_debug_macros_sp cu = None then
        (if Flags_IsClear (m_flags cu) flagsParsedDebugMacros then
           (let cu1 = cu\<lparr>m_flags := Flags_Set (m_flags cu) flagsParsedDebugMacros\<rparr> in
            case module of
              None \<Rightarrow> Inl NullModule
            | Some m \<Rightarrow>
                (case GetSymbolFile m of
                   None \<Rightarrow> Inr (m_debug_macros_sp cu1, cu1)
                 | Some symfile \<Rightarrow>
                     (let cu2 = cu1\<lparr>trace := trace cu1 @ [CallParseDebugMacros]\<rparr>;
                          cu3 = apply_calls (ParseDebugMacros symfile cu2) cu2
                      in Inr (m_debug_macros_sp cu3, cu3))))
         else Inr (m_debug_macros_sp cu, cu))
      else Inr (m_debug_macros_sp cu, cu))"

definition GetImportedModules ::
  "Module option \<Rightarrow> CompileUnit \<Rightarrow> error + (string list \<times> CompileUnit)" where
  "GetImportedModules module cu =
     (if m_imported_modules cu = [] \<and> Flags_IsClear (m_flags cu) flagsParsedImportedModules then
        (let cu1 = cu\<lparr>m_flags := Flags_Set (m_flags cu) flagsParsedImportedModules\<rparr> in
         case module of
           None \<Rightarrow> Inl NullModule
         | Some m \<Rightarrow>
             (case GetSymbolFile m of
                None \<Rightarrow> Inr (m_imported_modules cu1, cu1)
              | Some symfile \<Rightarrow>
                  (let cu2 = cu1\<lparr>trace := trace cu1 @ [CallParseImportedModules]\<rparr>;
                       answer = ParseImportedModules symfile cu2;
                       cu3 = (apply_calls (fst answer) cu2)\<lparr>m_imported_modules := snd answer\<rparr>
                   in Inr (m_imported_modules cu3, cu3))))
      else Inr (m_imported_modules cu, cu))"

definition GetSupportFiles ::
  "Module option \<Rightarrow> CompileUnit \<Rightarrow> error + (SupportFileList \<times> CompileUnit)" where
  "GetSupportFiles module cu =
     (if length (m_support_files cu) = 0 then
        (if Flags_IsClear (m_flags cu) flagsParsedSupportFiles then
           (let cu1 = cu\<lparr>m_flags := Flags_Set (m_flags cu) flagsParsedSupportFiles\<rparr> in
            case module of
              None \<Rightarrow> Inl NullModule
            | Some m \<Rightarrow>
                (case GetSymbolFile m of
                   None \<Rightarrow> Inr (m_support_files cu1, cu1)
                 | Some symfile \<Rightarrow>
                     (let cu2 = cu1\<lparr>trace := trace cu1 @ [CallParseSupportFiles]\<rparr>;
                          answer = ParseSupportFiles symfile cu2;
                          cu3 = (apply_calls (fst answer) cu2)\<lparr>m_support_files := snd answer\<rparr>
                      in Inr (m_support_files cu3, cu3))))
         else Inr (m_support_files cu, cu))
      else Inr (m_support_files cu, cu))"

text \<open>
  A sequence of accessor calls on one unit, each with the module the unit's reference
  yields at that moment; the run ends at the first call that fails.
\<close>

datatype accessor =
  CallGetLanguage | CallGetLineTable | CallGetDebugMacros | CallGetImportedModules
  | CallGetSupportFiles

definition call_accessor :: "accessor \<Rightarrow> Module option \<Rightarrow> CompileUnit \<Rightarrow> error + CompileUnit" where
  "call_accessor a module cu =
     (case a of
        CallGetLanguage \<Rightarrow> map_sum id snd (GetLanguage module cu)
      | CallGetLineTable \<Rightarrow> map_sum id snd (GetLineTable module cu)
      | CallGetDebugMacros \<Rightarrow> map_sum id snd (GetDebugMacros module cu)
      | CallGetImportedModules \<Rightarrow> map_sum id snd (GetImportedModules module cu)
      | CallGetSupportFiles \<Rightarrow> map_sum id snd (GetSupportFiles module cu))"

fun call_accessors :: "(accessor \<times> Module option) list \<Rightarrow> CompileUnit \<Rightarrow> error + CompileUnit" where
  "call_accessors [] cu = Inr cu"
| "call_accessors ((a, module) # calls) cu =
     (case call_accessor a module cu of
        Inl e \<Rightarrow> Inl e
      | Inr cu' \<Rightarrow> call_accessors calls cu')"

text \<open>The parse function of the symbol file behind each accessor, and the field's flag.\<close>

fun parse_call :: "accessor \<Rightarrow> event" where
  "parse_call CallGetLanguage = CallParseLanguage"
| "parse_call CallGetLineTable = CallParseLineTable"
| "parse_call CallGetDebugMacros = CallParseDebugMacros"
| "parse_call CallGetImportedModules = CallParseImportedModules"
| "parse_call CallGetSupportFiles = CallParseSupportFiles"

fun parsed_flag :: "accessor \<Rightarrow> 32 word" where
  "parsed_flag CallGetLanguage = flagsParsedLanguage"
| "parsed_flag CallGetLineTable = flagsParsedLineTable"
| "parsed_flag CallGetDebugMacros = flagsParsedDebugMacros"
| "parsed_flag CallGetImportedModules = flagsParsedImportedModules"
| "parsed_flag CallGetSupportFiles = flagsParsedSupportFiles"

subsection \<open>The function registry\<close>

text \<open>
  \<open>m_functions_by_uid\<close> maps a function's id to the function. The container is declared
  in the class header, outside this file, and this file does not rely on the order in
  which it iterates: \<open>ForeachFunction\<close> sorts what it reads from it. The list holds the
  entries in the container's iteration order. \<^verbatim>\<open>m[k] = v\<close> replaces the value of a key
  that is present where it stands; a new key goes where the container puts it, which is
  the parameter \<open>slot\<close> (from the new key and the keys present to a position).
\<close>

definition map_assign ::
  "(user_id_t \<Rightarrow> user_id_t list \<Rightarrow> nat) \<Rightarrow> user_id_t \<Rightarrow> Function
    \<Rightarrow> (user_id_t \<times> Function) list \<Rightarrow> (user_id_t \<times> Function) list" where
  "map_assign slot k v entries =
     (if k \<in> set (map fst entries)
      then map (\<lambda>p. if fst p = k then (k, v) else p) entries
      else (let n = slot k (map fst entries) in take n entries @ [(k, v)] @ drop n entries))"

definition AddFunction ::
  "(user_id_t \<Rightarrow> user_id_t list \<Rightarrow> nat) \<Rightarrow> Function \<Rightarrow> CompileUnit \<Rightarrow> CompileUnit" where
  "AddFunction slot funcSP cu =
     cu\<lparr>m_functions_by_uid := map_assign slot (GetID funcSP) funcSP (m_functions_by_uid cu)\<rparr>"

definition FindFunctionByUID :: "user_id_t \<Rightarrow> CompileUnit \<Rightarrow> Function option" where
  "FindFunctionByUID func_uid cu = map_of (m_functions_by_uid cu) func_uid"

text \<open>
  The visitor of \<open>ForeachFunction\<close> may have effects: it takes and returns a state
  \<open>'s\<close> beside the flag that asks to stop. \<^verbatim>\<open>llvm::sort\<close> by ascending id is \<open>sort_key\<close>:
  the ids of the registry's functions are distinct, so every sorting algorithm yields
  the same list.
\<close>

fun ForeachFunction_loop :: "('s \<Rightarrow> Function \<Rightarrow> bool \<times> 's) \<Rightarrow> Function list \<Rightarrow> 's \<Rightarrow> 's" where
  "ForeachFunction_loop lambda [] s = s"
| "ForeachFunction_loop lambda (f # fs) s =
     (case lambda s f of (stop, s') \<Rightarrow> if stop then s' else ForeachFunction_loop lambda fs s')"

definition ForeachFunction :: "('s \<Rightarrow> Function \<Rightarrow> bool \<times> 's) \<Rightarrow> CompileUnit \<Rightarrow> 's \<Rightarrow> 's" where
  "ForeachFunction lambda cu s =
     (let sorted_functions = sort_key GetID (map snd (m_functions_by_uid cu))
      in ForeachFunction_loop lambda sorted_functions s)"

text \<open>
  \<open>FindFunction\<close> asks the symbol file to parse all functions, which registers them
  through \<open>AddFunction\<close>, and scans the container in its own order.
\<close>

fun FindFunction_loop :: "(Function \<Rightarrow> bool) \<Rightarrow> (user_id_t \<times> Function) list \<Rightarrow> Function option" where
  "FindFunction_loop matching_lambda [] = None"
| "FindFunction_loop matching_lambda (p # ps) =
     (if matching_lambda (snd p) then Some (snd p) else FindFunction_loop matching_lambda ps)"

definition FindFunction ::
  "(user_id_t \<Rightarrow> user_id_t list \<Rightarrow> nat) \<Rightarrow> Module option \<Rightarrow> (Function \<Rightarrow> bool) \<Rightarrow> CompileUnit
    \<Rightarrow> Function option \<times> CompileUnit" where
  "FindFunction slot module matching_lambda cu =
     (case module of
        None \<Rightarrow> (None, cu)
      | Some m \<Rightarrow>
          (case GetSymbolFile m of
             None \<Rightarrow> (None, cu)
           | Some symbol_file \<Rightarrow>
               (let cu1 = cu\<lparr>trace := trace cu @ [CallParseFunctions]\<rparr>;
                    cu2 = fold (AddFunction slot) (ParseFunctions symbol_file cu1) cu1
                in (FindFunction_loop matching_lambda (m_functions_by_uid cu2), cu2))))"

text \<open>
  The functions \<open>ForeachFunction\<close> calls a visitor on, in the order of the calls, when the
  visitor answers \<open>stop f\<close> on \<open>f\<close>; and the invariant of the registry: the keys are
  distinct and each is the id of its function.
\<close>

definition visited :: "(Function \<Rightarrow> bool) \<Rightarrow> CompileUnit \<Rightarrow> Function list" where
  "visited stop cu = ForeachFunction (\<lambda>s f. (stop f, s @ [f])) cu []"

definition registry_ok :: "CompileUnit \<Rightarrow> bool" where
  "registry_ok cu =
     (distinct (map fst (m_functions_by_uid cu)) \<and>
      list_all (\<lambda>p. fst p = GetID (snd p)) (m_functions_by_uid cu))"

subsection \<open>Resolving a source location\<close>

text \<open>
  Modelled from the spec: the resolve scope is a bitmask of \<^verbatim>\<open>SymbolContextItem\<close> bits,
  declared outside this file; line entry resolution is one of its bits.
\<close>

definition eSymbolContextLineEntry :: "32 word" where
  "eSymbolContextLineEntry = push_bit 5 1"

text \<open>
  The collaborators of \<open>ResolveSymbolContext\<close> whose code is in other files, as
  parameters: \<^verbatim>\<open>FileSpec::Match\<close>; \<^verbatim>\<open>SupportFileList::FindCompatibleIndex\<close> (from a start
  index; \<open>UINT32_MAX\<close> when there is none); the two searches of the line table (by one
  file index and by several), which return the index found, or \<open>UINT32_MAX\<close>, and
  what the entry handed to them holds afterwards; the default \<^verbatim>\<open>LineEntry\<close> and
  \<^verbatim>\<open>LineEntry::IsValid\<close>; \<^verbatim>\<open>Declaration::FileAndLineEqual\<close>; and, on an address,
  \<^verbatim>\<open>CalculateSymbolContext\<close> with a scope, \<^verbatim>\<open>CalculateSymbolContextFunction\<close> and
  \<^verbatim>\<open>GetFileAddress\<close>.
\<close>

record Env =
  FileSpec_Match :: "FileSpec \<Rightarrow> FileSpec \<Rightarrow> bool"
  FindCompatibleIndex :: "SupportFileList \<Rightarrow> 32 word \<Rightarrow> FileSpec \<Rightarrow> RealpathPrefixes option \<Rightarrow> 32 word"
  FindLineEntryIndexByFileIndex ::
    "LineTable \<Rightarrow> 32 word \<Rightarrow> 32 word \<Rightarrow> SourceLocationSpec \<Rightarrow> LineEntry \<Rightarrow> 32 word \<times> LineEntry"
  FindLineEntryIndexByFileIndexes ::
    "LineTable \<Rightarrow> 32 word \<Rightarrow> 32 word list \<Rightarrow> SourceLocationSpec \<Rightarrow> LineEntry \<Rightarrow> 32 word \<times> LineEntry"
  LineEntry_ctor :: LineEntry
  LineEntry_IsValid :: "LineEntry \<Rightarrow> bool"
  FileAndLineEqual :: "Declaration \<Rightarrow> Declaration \<Rightarrow> bool \<Rightarrow> bool"
  CalculateSymbolContext :: "Address \<Rightarrow> 32 word \<Rightarrow> SymbolContext"
  CalculateSymbolContextFunction :: "Address \<Rightarrow> Function option"
  GetFileAddress :: "Address \<Rightarrow> addr_t"

text \<open>\<^verbatim>\<open>SymbolContext sc(GetModule())\<close> has the module and nothing else.\<close>

definition SymbolContext_ctor :: "Env \<Rightarrow> Module option \<Rightarrow> SymbolContext" where
  "SymbolContext_ctor env module =
     \<lparr> target_sp = None, module_sp = map_option module_ptr module, comp_unit = None,
       sc_function = None, sc_block = None, line_entry = LineEntry_ctor env, sc_symbol = None \<rparr>"

text \<open>
  Modelled from the spec: the constructor of \<^verbatim>\<open>SourceLocationSpec\<close> is declared outside
  this file. A query built from a file, a line, an optional column and the two flags
  (lines 437 and 438) holds them as given.
\<close>

definition SourceLocationSpec_ctor ::
  "FileSpec \<Rightarrow> 32 word \<Rightarrow> 16 word option \<Rightarrow> bool \<Rightarrow> bool \<Rightarrow> SourceLocationSpec" where
  "SourceLocationSpec_ctor file_spec line column check_inlines exact_match =
     \<lparr> GetFileSpec = file_spec, GetLine = Some line, GetColumn = column,
       GetCheckInlines = check_inlines, GetExactMatch = exact_match \<rparr>"

text \<open>
  \<open>FindFileIndexes\<close> collects the compatible indexes one after the other; the loop ends
  when the search answers \<open>UINT32_MAX\<close>, and need not end for a search that never does.
\<close>

partial_function (option) FindFileIndexes_loop ::
  "(32 word \<Rightarrow> 32 word) \<Rightarrow> 32 word \<Rightarrow> 32 word list \<Rightarrow> 32 word list option" where
  "FindFileIndexes_loop find_from idx result =
     (let idx' = find_from (idx + 1)
      in if idx' \<noteq> UINT32_MAX then FindFileIndexes_loop find_from idx' (result @ [idx'])
         else Some result)"

declare FindFileIndexes_loop.simps [code]

definition FindFileIndexes ::
  "Env \<Rightarrow> SupportFileList \<Rightarrow> FileSpec \<Rightarrow> RealpathPrefixes option \<Rightarrow> 32 word list option" where
  "FindFileIndexes env files file realpath_prefixes =
     FindFileIndexes_loop (\<lambda>start. FindCompatibleIndex env files start file realpath_prefixes) (- 1) []"

text \<open>
  The body of the \<^verbatim>\<open>while\<close> loop of \<^verbatim>\<open>examine_block\<close> (lines 357 to 402) on one child
  \<open>sibling_block\<close> of \<open>parent\<close>, and the loop over the children with the descent into
  each (lines 352 to 408).
\<close>

definition examine_sibling ::
  "Env \<Rightarrow> Declaration \<Rightarrow> SourceLocationSpec \<Rightarrow> 32 word \<Rightarrow> Block \<Rightarrow> Block
    \<Rightarrow> SymbolContext list \<Rightarrow> SymbolContext list" where
  "examine_sibling env sought_decl src_location_spec resolve_scope parent sibling_block sc_list =
     (case GetInlinedFunctionInfo sibling_block of
        None \<Rightarrow> sc_list
      | Some inline_info \<Rightarrow>
          (let found_decl = GetCallSite inline_info;
               sought_column = (ucast (decl_column sought_decl) :: 32 word) in
           if FileAndLineEqual env found_decl sought_decl False \<and>
              (sought_column = LLDB_INVALID_COLUMN_NUMBER \<or>
               sought_column = ucast (decl_column found_decl))
           then
             (case GetStartAddress parent of
                None \<Rightarrow> sc_list
              | Some parent_start_addr \<Rightarrow>
                  (let sc = CalculateSymbolContext env parent_start_addr resolve_scope;
                       call_site_line = (line_entry sc)\<lparr>le_line := decl_line found_decl,
                                                        le_column := decl_column found_decl\<rparr>;
                       matches_spec =
                         (if GetExactMatch src_location_spec
                          then GetFileSpec src_location_spec = le_file (line_entry sc) \<and>
                               (case GetLine src_location_spec of
                                  None \<Rightarrow> False | Some l \<Rightarrow> l = le_line call_site_line) \<and>
                               (case GetColumn src_location_spec of
                                  None \<Rightarrow> False | Some c \<Rightarrow> c = le_column call_site_line)
                          else True)
                   in if matches_spec
                      then (let got = GetRangeAtIndex sibling_block 0 (le_range call_site_line)
                            in if fst got
                               then sc_list @
                                      [sc\<lparr>line_entry := call_site_line\<lparr>le_range := snd got\<rparr>\<rparr>]
                               else sc_list)
                      else sc_list))
           else sc_list))"

fun examine_block ::
  "Env \<Rightarrow> Declaration \<Rightarrow> SourceLocationSpec \<Rightarrow> 32 word \<Rightarrow> Block \<Rightarrow> SymbolContext list
    \<Rightarrow> SymbolContext list" where
  "examine_block env sought_decl src_location_spec resolve_scope
       (Block uid info start ranges children) sc_list =
     fold (\<lambda>sibling_block acc.
             examine_block env sought_decl src_location_spec resolve_scope sibling_block
               (examine_sibling env sought_decl src_location_spec resolve_scope
                  (Block uid info start ranges children) sibling_block acc))
          children sc_list"

text \<open>
  The search of the line table from \<open>start_idx\<close>, by the one matching file index or by
  all of them (lines 304 to 316 and 483 to 488).
\<close>

definition find_line_entry ::
  "Env \<Rightarrow> LineTable \<Rightarrow> 32 word list \<Rightarrow> 32 word \<Rightarrow> SourceLocationSpec \<Rightarrow> LineEntry
    \<Rightarrow> 32 word \<times> LineEntry" where
  "find_line_entry env line_table file_indexes start_idx src_location_spec entry =
     (if length file_indexes = 1
      then FindLineEntryIndexByFileIndex env line_table start_idx (hd file_indexes)
             src_location_spec entry
      else FindLineEntryIndexByFileIndexes env line_table start_idx file_indexes
             src_location_spec entry)"

text \<open>
  The body of the forward scan (lines 444 to 481) on the entry found: the context
  appended, and the error reported to a module, if any. The scan itself (lines 440 to
  489) need not end for a search that keeps finding entries.
\<close>

definition append_line_entry ::
  "Env \<Rightarrow> 32 word \<Rightarrow> SymbolContext \<Rightarrow> LineEntry \<Rightarrow> CompileUnit \<times> SymbolContext list
    \<Rightarrow> CompileUnit \<times> SymbolContext list" where
  "append_line_entry env resolve_scope sc0 entry st =
     (let cu = fst st; sc_list = snd st;
          sc = sc0\<lparr>line_entry := entry\<rparr>
      in if resolve_scope = eSymbolContextLineEntry then (cu, sc_list @ [sc])
         else
           (let resolved_sc =
                  CalculateSymbolContext env (m_base_addr (le_range entry)) resolve_scope
            in if comp_unit resolved_sc = Some (this_ptr cu) then (cu, sc_list @ [resolved_sc])
               else
                 (case (comp_unit resolved_sc, module_sp resolved_sc) of
                    (None, Some module_sp') \<Rightarrow>
                      (cu\<lparr>trace := trace cu @
                           [ReportError module_sp'
                              (GetFileAddress env (m_base_addr (le_range entry)))]\<rparr>,
                       sc_list @ [sc])
                  | _ \<Rightarrow> (cu, sc_list @ [sc]))))"

partial_function (option) scan_line_table ::
  "Env \<Rightarrow> 32 word \<Rightarrow> LineTable \<Rightarrow> 32 word list \<Rightarrow> SourceLocationSpec \<Rightarrow> SymbolContext
    \<Rightarrow> 32 word \<Rightarrow> LineEntry \<Rightarrow> CompileUnit \<times> SymbolContext list
    \<Rightarrow> (CompileUnit \<times> SymbolContext list) option" where
  "scan_line_table env resolve_scope line_table file_indexes found_entry sc line_idx entry st =
     (if line_idx \<noteq> UINT32_MAX
      then
        (let st' = append_line_entry env resolve_scope sc entry st;
             next_entry = find_line_entry env line_table file_indexes (line_idx + 1) found_entry
                            entry
         in scan_line_table env resolve_scope line_table file_indexes found_entry sc
              (fst next_entry) (snd next_entry) st')
      else Some st)"

declare scan_line_table.simps [code]

text \<open>Lines 427 to 489: the secondary query from the entry found, and the scan with it.\<close>

definition forward_scan ::
  "Env \<Rightarrow> SourceLocationSpec \<Rightarrow> 32 word \<Rightarrow> LineTable \<Rightarrow> 32 word list \<Rightarrow> SymbolContext
    \<Rightarrow> 32 word \<Rightarrow> LineEntry \<Rightarrow> CompileUnit \<times> SymbolContext list
    \<Rightarrow> (CompileUnit \<times> SymbolContext list) option" where
  "forward_scan env src_location_spec resolve_scope line_table file_indexes sc line_idx entry st =
     (let inlines = False;
          exact = True;
          column = (if GetColumn src_location_spec \<noteq> None then Some (le_column entry) else None);
          found_entry = SourceLocationSpec_ctor (le_file entry) (le_line entry) column inlines exact
      in scan_line_table env resolve_scope line_table file_indexes found_entry sc line_idx entry st)"

text \<open>
  The entries that the scan visits (lines 440 and 483 to 488): from \<open>line_idx\<close> and its
  entry the loop visits \<open>entries\<close>, one after the other, each found by the search from
  the index after the one before, and then the search finds nothing more.
\<close>

fun scan_finds ::
  "Env \<Rightarrow> LineTable \<Rightarrow> 32 word list \<Rightarrow> SourceLocationSpec \<Rightarrow> 32 word \<Rightarrow> LineEntry
    \<Rightarrow> LineEntry list \<Rightarrow> bool" where
  "scan_finds env line_table file_indexes found_entry line_idx entry [] =
     (line_idx = UINT32_MAX)"
| "scan_finds env line_table file_indexes found_entry line_idx entry (e # entries) =
     (line_idx \<noteq> UINT32_MAX \<and> e = entry \<and>
      (let next_entry = find_line_entry env line_table file_indexes (line_idx + 1) found_entry
                          entry
       in scan_finds env line_table file_indexes found_entry (fst next_entry) (snd next_entry)
            entries))"

text \<open>
  Lines 254 to 257, the condition of the inline call-site search (lines 330 to 333), the
  search (lines 338 to 415), and lines 301 to 489 as a whole.
\<close>

definition query_line :: "SourceLocationSpec \<Rightarrow> 32 word" where
  "query_line src_location_spec =
     (case GetLine src_location_spec of None \<Rightarrow> LLDB_INVALID_LINE_NUMBER | Some l \<Rightarrow> l)"

definition query_column_num :: "SourceLocationSpec \<Rightarrow> 32 word" where
  "query_column_num src_location_spec =
     (case GetColumn src_location_spec of None \<Rightarrow> LLDB_INVALID_COLUMN_NUMBER | Some c \<Rightarrow> ucast c)"

definition call_site_search_applies ::
  "Env \<Rightarrow> SourceLocationSpec \<Rightarrow> 32 word \<Rightarrow> LineEntry \<Rightarrow> bool" where
  "call_site_search_applies env src_location_spec resolve_scope entry =
     (let line = query_line src_location_spec;
          column_num = query_column_num src_location_spec;
          check_inlines = GetCheckInlines src_location_spec
      in LineEntry_IsValid env entry \<and>
         (le_line entry \<noteq> line \<or> (column_num \<noteq> 0 \<and> ucast (le_column entry) \<noteq> column_num)) \<and>
         resolve_scope AND eSymbolContextLineEntry \<noteq> 0 \<and> check_inlines)"

definition search_call_sites ::
  "Env \<Rightarrow> SourceLocationSpec \<Rightarrow> 32 word \<Rightarrow> LineEntry \<Rightarrow> SymbolContext list
    \<Rightarrow> SymbolContext list" where
  "search_call_sites env src_location_spec resolve_scope entry sc_list =
     (let start_addr = m_base_addr (le_range entry);
          func = CalculateSymbolContextFunction env start_addr;
          sought_decl = \<lparr> decl_file = GetFileSpec src_location_spec,
                          decl_line = query_line src_location_spec,
                          decl_column = ucast (query_column_num src_location_spec) \<rparr>
      in case func of
           None \<Rightarrow> sc_list
         | Some f \<Rightarrow>
             examine_block env sought_decl src_location_spec resolve_scope (GetBlock f) sc_list)"

definition resolve_in_line_table ::
  "Env \<Rightarrow> SourceLocationSpec \<Rightarrow> 32 word \<Rightarrow> LineTable \<Rightarrow> 32 word list \<Rightarrow> SymbolContext
    \<Rightarrow> CompileUnit \<times> SymbolContext list \<Rightarrow> (CompileUnit \<times> SymbolContext list) option" where
  "resolve_in_line_table env src_location_spec resolve_scope line_table file_indexes sc st =
     (let cu = fst st; sc_list = snd st;
          found = find_line_entry env line_table file_indexes 0 src_location_spec
                    (LineEntry_ctor env);
          line_idx = fst found;
          entry = snd found
      in if call_site_search_applies env src_location_spec resolve_scope entry
         then
           (let old_sc_list_size = length sc_list;
                sc_list' = search_call_sites env src_location_spec resolve_scope entry sc_list
            in if length sc_list' > old_sc_list_size then Some (cu, sc_list')
               else forward_scan env src_location_spec resolve_scope line_table file_indexes sc
                      line_idx entry (cu, sc_list'))
         else forward_scan env src_location_spec resolve_scope line_table file_indexes sc
                line_idx entry st)"

text \<open>
  \<open>ResolveSymbolContext\<close> on the unit and the list of contexts: \<open>None\<close> when a loop never
  ends, an error when a null module or symbol file is dereferenced, and otherwise the
  unit and the list afterwards.
\<close>

definition ResolveSymbolContext ::
  "Env \<Rightarrow> Module option \<Rightarrow> SourceLocationSpec \<Rightarrow> 32 word \<Rightarrow> RealpathPrefixes option
    \<Rightarrow> CompileUnit \<times> SymbolContext list
    \<Rightarrow> (error + CompileUnit \<times> SymbolContext list) option" where
  "ResolveSymbolContext env module src_location_spec resolve_scope realpath_prefixes st =
     (let cu = fst st; sc_list = snd st;
          file_spec = GetFileSpec src_location_spec;
          line = query_line src_location_spec;
          check_inlines = GetCheckInlines src_location_spec;
          file_spec_matches_cu_file_spec =
            FileSpec_Match env file_spec (m_primary_support_file_sp cu)
      in if \<not> file_spec_matches_cu_file_spec \<and> \<not> check_inlines then Some (Inr st)
         else
           (let sc = (SymbolContext_ctor env module)\<lparr>comp_unit := Some (this_ptr cu)\<rparr>
            in if line = LLDB_INVALID_LINE_NUMBER
               then (if file_spec_matches_cu_file_spec \<and> \<not> check_inlines
                     then Some (Inr (cu, sc_list @ [sc]))
                     else Some (Inr st))
               else
                 (case GetSupportFiles module cu of
                    Inl e \<Rightarrow> Some (Inl e)
                  | Inr (support_files, cu1) \<Rightarrow>
                      (case FindFileIndexes env support_files file_spec realpath_prefixes of
                         None \<Rightarrow> None
                       | Some file_indexes \<Rightarrow>
                           if length file_indexes = 0 then Some (Inr (cu1, sc_list))
                           else
                             (case module of
                                None \<Rightarrow> Some (Inl NullModule)
                              | Some m \<Rightarrow>
                                  (case GetSymbolFile m of
                                     None \<Rightarrow> Some (Inl NullSymbolFile)
                                   | Some symfile \<Rightarrow>
                                       (case GetLineTable module
                                               (cu1\<lparr>trace := trace cu1 @
                                                      [CallSetLoadDebugInfoEnabled]\<rparr>) of
                                          Inl e \<Rightarrow> Some (Inl e)
                                        | Inr (None, cu2) \<Rightarrow>
                                            if file_spec_matches_cu_file_spec \<and> \<not> check_inlines
                                            then Some (Inr (cu2, sc_list @ [sc]))
                                            else Some (Inr (cu2, sc_list))
                                        | Inr (Some line_table, cu2) \<Rightarrow>
                                            map_option Inr
                                              (resolve_in_line_table env src_location_spec
                                                 resolve_scope line_table file_indexes sc
                                                 (cu2, sc_list)))))))))"

text \<open>
  Two orders on the (parent, child) pairs of a block tree. In \<open>preorder\<close> a child is
  followed by the pairs below it, and then by its next sibling. In \<open>siblings_first\<close>,
  the order of the spec's words (the siblings of the top block, then each sibling's
  children in turn), all children of a block come before the pairs below any of them.
\<close>

fun preorder :: "Block \<Rightarrow> (Block \<times> Block) list" where
  "preorder (Block uid info start ranges children) =
     concat (map (\<lambda>c. (Block uid info start ranges children, c) # preorder c) children)"

fun siblings_first :: "Block \<Rightarrow> (Block \<times> Block) list" where
  "siblings_first (Block uid info start ranges children) =
     map (\<lambda>c. (Block uid info start ranges children, c)) children
       @ concat (map siblings_first children)"

text \<open>
  The words of the claim on the forward scan, to compare with the code: the bare context
  of a unit for a line entry (the module, the unit, the entry, and nothing else); the
  context that the claim gives to an entry found (the resolved one when it has this same
  unit, the bare one otherwise); and the diagnostics that it gives to it (one, to the
  module of the resolved context, when that context has no unit but has a module).
\<close>

definition bare_context :: "Module \<Rightarrow> nat \<Rightarrow> LineEntry \<Rightarrow> SymbolContext" where
  "bare_context m this e =
     \<lparr> target_sp = None, module_sp = Some (module_ptr m), comp_unit = Some this,
       sc_function = None, sc_block = None, line_entry = e, sc_symbol = None \<rparr>"

definition guarded_context :: "Env \<Rightarrow> 32 word \<Rightarrow> Module \<Rightarrow> nat \<Rightarrow> LineEntry \<Rightarrow> SymbolContext" where
  "guarded_context env resolve_scope m this e =
     (let resolved_sc = CalculateSymbolContext env (m_base_addr (le_range e)) resolve_scope
      in if comp_unit resolved_sc = Some this then resolved_sc else bare_context m this e)"

definition guard_diagnostics :: "Env \<Rightarrow> 32 word \<Rightarrow> LineEntry \<Rightarrow> event list" where
  "guard_diagnostics env resolve_scope e =
     (let resolved_sc = CalculateSymbolContext env (m_base_addr (le_range e)) resolve_scope
      in if comp_unit resolved_sc = None
         then (case module_sp resolved_sc of
                 None \<Rightarrow> []
               | Some md \<Rightarrow> [ReportError md (GetFileAddress env (m_base_addr (le_range e)))])
         else [])"

subsection \<open>Counting the parse calls\<close>

text \<open>
  The events that clear the flag of the field behind an accessor: null handed by the
  symbol file to the field's setter. The line table and the debug macros have a setter;
  the language, the imported modules and the support files have none. For a field and a
  unit, the number of calls of the field's parse function so far, the number of times
  its flag was cleared so far, and whether the flag is clear now (1) or set (0).
\<close>

definition clears :: "accessor \<Rightarrow> event \<Rightarrow> bool" where
  "clears a e =
     (a = CallGetLineTable \<and> e = SymbolFileCalls (DoSetLineTable None) \<or>
      a = CallGetDebugMacros \<and> e = SymbolFileCalls (DoSetDebugMacros None))"

definition invocations :: "accessor \<Rightarrow> CompileUnit \<Rightarrow> nat" where
  "invocations a cu = count_list (trace cu) (parse_call a)"

definition resets :: "accessor \<Rightarrow> CompileUnit \<Rightarrow> nat" where
  "resets a cu = length (filter (clears a) (trace cu))"

definition armed :: "accessor \<Rightarrow> CompileUnit \<Rightarrow> nat" where
  "armed a cu = (if Flags_IsClear (m_flags cu) (parsed_flag a) then 1 else 0)"

text \<open>
  The invariant behind the lazy fields, between a unit and the same unit later: every
  further call of the field's parse function is paid for by the flag that was clear
  before it or by a clearing of the flag since, and nothing is taken from the trace.
\<close>

definition balanced :: "accessor \<Rightarrow> CompileUnit \<Rightarrow> CompileUnit \<Rightarrow> bool" where
  "balanced a cu cu' =
     (invocations a cu' + resets a cu + armed a cu' \<le> invocations a cu + resets a cu' + armed a cu
      \<and> invocations a cu \<le> invocations a cu' \<and> resets a cu \<le> resets a cu')"

subsection \<open>Example objects\<close>

text \<open>A symbol file that finds nothing, a module with it, and a unit of unknown language.\<close>

definition silent_symfile :: SymbolFile where
  "silent_symfile =
     \<lparr> ParseLanguage = (\<lambda>cu. ([], eLanguageTypeUnknown)), ParseLineTable = (\<lambda>cu. []),
       ParseDebugMacros = (\<lambda>cu. []), ParseImportedModules = (\<lambda>cu. ([], [])),
       ParseSupportFiles = (\<lambda>cu. ([], [])), ParseFunctions = (\<lambda>cu. []) \<rparr>"

definition silent_module :: Module where
  "silent_module = \<lparr> module_ptr = 1, GetSymbolFile = Some silent_symfile \<rparr>"

definition a_c :: FileSpec where
  "a_c = \<lparr> m_directory = ''/src'', m_filename = ''a.c'' \<rparr>"

definition fresh_unit :: CompileUnit where
  "fresh_unit = CompileUnit_ctor 100 0 a_c 7 eLanguageTypeUnknown eLazyBoolCalculate []"

text \<open>A symbol file that hands null to \<^verbatim>\<open>SetLineTable\<close> whenever it is asked for the table.\<close>

definition nulling_symfile :: SymbolFile where
  "nulling_symfile = silent_symfile\<lparr> ParseLineTable := (\<lambda>cu. [DoSetLineTable None]) \<rparr>"

definition nulling_module :: Module where
  "nulling_module = \<lparr> module_ptr = 1, GetSymbolFile = Some nulling_symfile \<rparr>"

text \<open>The language C99, and a symbol file that answers C89 for every unit.\<close>

definition eLanguageTypeC99 :: LanguageType where
  "eLanguageTypeC99 = 12"

definition c99_symfile :: SymbolFile where
  "c99_symfile = silent_symfile\<lparr> ParseLanguage := (\<lambda>cu. ([], 1)) \<rparr>"

text \<open>
  A container that keeps its keys in the order they were inserted, a function with a
  given id (and an empty block), and a symbol file that registers the functions 4 and 2.
\<close>

definition slot_back :: "user_id_t \<Rightarrow> user_id_t list \<Rightarrow> nat" where
  "slot_back k keys = length keys"

definition fn :: "user_id_t \<Rightarrow> Function" where
  "fn k = \<lparr> GetID = k, GetBlock = Block k None None [] [] \<rparr>"

definition parsing_symfile :: SymbolFile where
  "parsing_symfile = silent_symfile\<lparr> ParseFunctions := (\<lambda>cu. [fn 4, fn 2]) \<rparr>"

text \<open>
  The example of the spec: the unit of \<open>a.c\<close> has line table entries for line 10 at
  0x1000 and for line 20 at 0x1010 (and three for line 30, at 0x2000, 0x3000 and
  0x4000). The function at 0x1000 has the inline blocks A, with the inline block A1
  inside it, and B; the call site of the three is line 15, column 5, of \<open>a.c\<close>.
\<close>

definition addr :: "addr_t \<Rightarrow> Address" where
  "addr off = \<lparr> m_section = Some 1, m_offset = off \<rparr>"

definition rng :: "addr_t \<Rightarrow> addr_t \<Rightarrow> AddressRange" where
  "rng off sz = \<lparr> m_base_addr = addr off, m_byte_size = sz \<rparr>"

definition row :: "32 word \<Rightarrow> addr_t \<Rightarrow> LineEntry" where
  "row l off = \<lparr> le_range = rng off 16, le_file = a_c, le_line = l, le_column = 1 \<rparr>"

definition table0 :: LineTable where
  "table0 = [row 10 0x1000, row 20 0x1010, row 30 0x2000, row 30 0x3000, row 30 0x4000]"

definition call_site_15_5 :: InlineFunctionInfo where
  "call_site_15_5 = \<lparr> GetCallSite = \<lparr> decl_file = a_c, decl_line = 15, decl_column = 5 \<rparr> \<rparr>"

definition block_A1 :: Block where
  "block_A1 = Block 3 (Some call_site_15_5) (Some (addr 0x1018)) [rng 0x1018 8] []"

definition block_A :: Block where
  "block_A = Block 2 (Some call_site_15_5) (Some (addr 0x1010)) [rng 0x1010 0x20] [block_A1]"

definition block_B :: Block where
  "block_B = Block 4 (Some call_site_15_5) (Some (addr 0x1040)) [rng 0x1040 0x10] []"

definition block_F :: Block where
  "block_F = Block 1 None (Some (addr 0x1000)) [rng 0x1000 0x100] [block_A, block_B]"

definition func_F :: Function where
  "func_F = \<lparr> GetID = 1, GetBlock = block_F \<rparr>"

text \<open>
  Address resolution in the example: 0x1000 and 0x1010 are in this unit (identity 100),
  in the function's block and in block A; 0x2000 is in this unit; 0x3000 resolves to a
  module and no unit; 0x4000 to another unit (identity 200).
\<close>

definition resolved :: "nat option \<Rightarrow> nat option \<Rightarrow> user_id_t option \<Rightarrow> LineEntry \<Rightarrow> SymbolContext" where
  "resolved m u b e =
     \<lparr> target_sp = None, module_sp = m, comp_unit = u, sc_function = map_option (\<lambda>b. 1) b,
       sc_block = b, line_entry = e, sc_symbol = None \<rparr>"

text \<open>
  The searches of the example: the first index from \<open>start\<close> whose element satisfies
  \<open>P\<close>; a line table entry matches a query on the same file with the same line, or,
  when the query is not exact, with a line not before the query's.
\<close>

fun index_from :: "('a \<Rightarrow> bool) \<Rightarrow> 'a list \<Rightarrow> nat \<Rightarrow> nat \<Rightarrow> nat option" where
  "index_from P [] i start = None"
| "index_from P (x # xs) i start =
     (if start \<le> i \<and> P x then Some i else index_from P xs (Suc i) start)"

definition line_matches :: "SourceLocationSpec \<Rightarrow> LineEntry \<Rightarrow> bool" where
  "line_matches q e =
     (le_file e = GetFileSpec q \<and>
      (case GetLine q of
         None \<Rightarrow> False
       | Some l \<Rightarrow> if GetExactMatch q then le_line e = l else l \<le> le_line e))"

definition search_lines ::
  "LineTable \<Rightarrow> 32 word \<Rightarrow> SourceLocationSpec \<Rightarrow> LineEntry \<Rightarrow> 32 word \<times> LineEntry" where
  "search_lines lt start q e =
     (case index_from (line_matches q) lt 0 (unat start) of
        None \<Rightarrow> (UINT32_MAX, e)
      | Some i \<Rightarrow> (of_nat i, lt ! i))"

definition lookup_address :: "Address \<Rightarrow> 32 word \<Rightarrow> SymbolContext" where
  "lookup_address a scope =
     (if m_offset a = 0x1000 then resolved (Some 1) (Some 100) (Some 1) (row 10 0x1000)
      else if m_offset a = 0x1010 then resolved (Some 1) (Some 100) (Some 2) (row 20 0x1010)
      else if m_offset a = 0x2000 then resolved (Some 1) (Some 100) (Some 5) (row 30 0x2000)
      else if m_offset a = 0x3000 then resolved (Some 1) None None (row 30 0x3000)
      else if m_offset a = 0x4000 then resolved (Some 1) (Some 200) None (row 30 0x4000)
      else resolved None None None (row 0 0))"

definition env0 :: Env where
  "env0 =
     \<lparr> FileSpec_Match = (\<lambda>a b. a = b),
       FindCompatibleIndex = (\<lambda>files start file prefixes.
          case index_from (\<lambda>f. f = file) files 0 (unat start) of
            None \<Rightarrow> UINT32_MAX | Some i \<Rightarrow> of_nat i),
       FindLineEntryIndexByFileIndex = (\<lambda>lt start file_idx q e. search_lines lt start q e),
       FindLineEntryIndexByFileIndexes = (\<lambda>lt start file_idxs q e. search_lines lt start q e),
       LineEntry_ctor = \<lparr> le_range = \<lparr> m_base_addr = \<lparr> m_section = None, m_offset = - 1 \<rparr>,
                                      m_byte_size = 0 \<rparr>,
                          le_file = \<lparr> m_directory = [], m_filename = [] \<rparr>,
                          le_line = LLDB_INVALID_LINE_NUMBER, le_column = 0 \<rparr>,
       LineEntry_IsValid = (\<lambda>e. m_section (m_base_addr (le_range e)) \<noteq> None \<and>
                                le_line e \<noteq> LLDB_INVALID_LINE_NUMBER),
       FileAndLineEqual = (\<lambda>a b full. decl_file a = decl_file b \<and> decl_line a = decl_line b),
       CalculateSymbolContext = lookup_address,
       CalculateSymbolContextFunction =
         (\<lambda>a. if 0x1000 \<le> m_offset a \<and> m_offset a < 0x1100 then Some func_F else None),
       GetFileAddress = m_offset \<rparr>"

text \<open>The symbol file of the example, its module, the queries, and a scope of all bits.\<close>

definition debug_symfile :: SymbolFile where
  "debug_symfile = silent_symfile\<lparr> ParseLineTable := (\<lambda>cu. [DoSetLineTable (Some table0)]),
                                   ParseSupportFiles := (\<lambda>cu. ([], [a_c])) \<rparr>"

definition debug_module :: Module where
  "debug_module = \<lparr> module_ptr = 1, GetSymbolFile = Some debug_symfile \<rparr>"

definition query :: "32 word \<Rightarrow> 16 word option \<Rightarrow> bool \<Rightarrow> bool \<Rightarrow> SourceLocationSpec" where
  "query l c inlines exact =
     \<lparr> GetFileSpec = a_c, GetLine = Some l, GetColumn = c, GetCheckInlines = inlines,
       GetExactMatch = exact \<rparr>"

definition eSymbolContextEverything :: "32 word" where
  "eSymbolContextEverything = 0x7f"

text \<open>The call-site context of the example in the block \<open>b\<close>, with the range \<open>r\<close>.\<close>

definition inlined_at :: "user_id_t \<Rightarrow> AddressRange \<Rightarrow> SymbolContext" where
  "inlined_at b r =
     resolved (Some 1) (Some 100) (Some b)
       \<lparr> le_range = r, le_file = a_c, le_line = 15, le_column = 5 \<rparr>"

text \<open>The unit of the example once its support files and its line table are parsed.\<close>

definition loaded_unit :: CompileUnit where
  "loaded_unit =
     fresh_unit\<lparr> m_flags := 12, m_support_files := [a_c], m_line_table_up := Some table0,
                 trace := [CallParseSupportFiles, CallSetLoadDebugInfoEnabled, CallParseLineTable,
                           SymbolFileCalls (DoSetLineTable (Some table0))] \<rparr>"

section \<open>Properties\<close>

subsection \<open>Flags\<close>

lemma Flags_IsClear_Clear: "Flags_IsClear (Flags_Clear f m) m"
  by (simp add: Flags_IsClear_def Flags_Clear_def bit_eq_iff bit_simps)

lemma Flags_IsClear_Set_same: "m \<noteq> 0 \<Longrightarrow> \<not> Flags_IsClear (Flags_Set f m) m"
  by (simp add: Flags_IsClear_def Flags_Set_def)

lemma Flags_IsClear_Set_mono: "\<not> Flags_IsClear f m \<Longrightarrow> \<not> Flags_IsClear (Flags_Set f m') m"
  by (auto simp add: Flags_IsClear_def Flags_Set_def bit_eq_iff bit_simps)

lemma Flags_IsClear_Set_other: "m AND b = 0 \<Longrightarrow> Flags_IsClear (Flags_Set f m) b = Flags_IsClear f b"
  by (simp add: Flags_IsClear_def Flags_Set_def bit.conj_disj_distrib2)

lemma Flags_IsClear_Clear_other: "m AND b = 0 \<Longrightarrow> Flags_IsClear (Flags_Clear f m) b = Flags_IsClear f b"
  by (auto simp add: Flags_IsClear_def Flags_Clear_def bit_eq_iff bit_simps)

lemma parsed_flag_nonzero: "parsed_flag a \<noteq> 0"
  by (cases a) (simp_all add: flagsParsedLanguage_def flagsParsedLineTable_def
      flagsParsedDebugMacros_def flagsParsedImportedModules_def flagsParsedSupportFiles_def)

lemma parsed_flag_disjoint: "a \<noteq> b \<Longrightarrow> parsed_flag a AND parsed_flag b = 0"
  by (cases a; cases b) (simp_all add: flagsParsedLanguage_def flagsParsedLineTable_def
      flagsParsedDebugMacros_def flagsParsedImportedModules_def flagsParsedSupportFiles_def)

lemma parse_call_inj: "parse_call a = parse_call b \<Longrightarrow> a = b"
  by (cases a; cases b) simp_all

subsection \<open>Parse calls and clearings of a flag\<close>

lemma balanced_refl: "balanced a cu cu"
  by (simp add: balanced_def)

lemma balanced_trans: "balanced a cu cu1 \<Longrightarrow> balanced a cu1 cu2 \<Longrightarrow> balanced a cu cu2"
  by (simp add: balanced_def)

lemma balanced_cong:
  "trace cu2 = trace cu1 \<Longrightarrow> m_flags cu2 = m_flags cu1 \<Longrightarrow> balanced a cu cu1 \<Longrightarrow> balanced a cu cu2"
  by (simp add: balanced_def invocations_def resets_def armed_def)

lemma apply_call_trace: "trace (apply_call c cu) = trace cu @ [SymbolFileCalls c]"
  by (cases c) (simp_all add: SetLineTable_def SetDebugMacros_def)

lemma apply_calls_trace: "trace (apply_calls cs cu) = trace cu @ map SymbolFileCalls cs"
  unfolding apply_calls_def
  by (induction cs arbitrary: cu) (simp_all add: apply_call_trace)

lemma parse_call_not_setter: "parse_call a \<noteq> SymbolFileCalls c" "SymbolFileCalls c \<noteq> parse_call a"
  by (cases a; simp)+

lemma apply_call_balanced: "balanced a cu (apply_call c cu)"
proof (cases c)
  case (DoSetLineTable lt)
  show ?thesis
  proof (cases "a = CallGetLineTable")
    case True
    then show ?thesis
      using DoSetLineTable parsed_flag_nonzero[of CallGetLineTable]
      by (cases lt) (simp_all add: balanced_def invocations_def resets_def armed_def clears_def
          SetLineTable_def Flags_IsClear_Clear Flags_IsClear_Set_same)
  next
    case False
    then have d: "parsed_flag CallGetLineTable AND parsed_flag a = 0"
      by (intro parsed_flag_disjoint) simp
    from False d show ?thesis
      using DoSetLineTable parse_call_not_setter
      by (cases lt) (simp_all add: balanced_def invocations_def resets_def armed_def clears_def
          SetLineTable_def Flags_IsClear_Clear_other Flags_IsClear_Set_other)
  qed
next
  case (DoSetDebugMacros dm)
  show ?thesis
  proof (cases "a = CallGetDebugMacros")
    case True
    then show ?thesis
      using DoSetDebugMacros parsed_flag_nonzero[of CallGetDebugMacros]
      by (cases dm) (simp_all add: balanced_def invocations_def resets_def armed_def clears_def
          SetDebugMacros_def Flags_IsClear_Clear Flags_IsClear_Set_same)
  next
    case False
    then have d: "parsed_flag CallGetDebugMacros AND parsed_flag a = 0"
      by (intro parsed_flag_disjoint) simp
    from False d show ?thesis
      using DoSetDebugMacros parse_call_not_setter
      by (cases dm) (simp_all add: balanced_def invocations_def resets_def armed_def clears_def
          SetDebugMacros_def Flags_IsClear_Clear_other Flags_IsClear_Set_other)
  qed
qed

lemma apply_calls_balanced: "balanced a cu (apply_calls cs cu)"
  unfolding apply_calls_def
proof (induction cs arbitrary: cu)
  case Nil
  show ?case by (simp add: balanced_refl)
next
  case (Cons c cs)
  from apply_call_balanced[of a cu c] Cons[of "apply_call c cu"] show ?case
    by (simp add: balanced_trans)
qed

lemma mark_balanced:
  assumes "Flags_IsClear (m_flags cu) (parsed_flag b)"
  shows "balanced a cu (cu\<lparr>m_flags := Flags_Set (m_flags cu) (parsed_flag b),
                            trace := trace cu @ [parse_call b]\<rparr>)"
proof (cases "a = b")
  case True
  with assms show ?thesis
    by (simp add: balanced_def invocations_def resets_def armed_def clears_def
        Flags_IsClear_Set_same parsed_flag_nonzero)
next
  case False
  then have "parsed_flag b AND parsed_flag a = 0" "parse_call a \<noteq> parse_call b"
    by (auto simp add: parsed_flag_disjoint dest: parse_call_inj)
  then show ?thesis
    by (cases b) (simp_all add: balanced_def invocations_def resets_def armed_def clears_def
        Flags_IsClear_Set_other)
qed

lemma flag_only_balanced:
  "balanced a cu (cu\<lparr>m_flags := Flags_Set (m_flags cu) m\<rparr>)"
  by (auto simp add: balanced_def invocations_def resets_def armed_def Flags_IsClear_Set_mono)

lemma parse_step_balanced:
  assumes "Flags_IsClear (m_flags cu) (parsed_flag b)"
    and "trace cu' = trace (apply_calls cs (cu\<lparr>m_flags := Flags_Set (m_flags cu) (parsed_flag b),
                                               trace := trace cu @ [parse_call b]\<rparr>))"
    and "m_flags cu' = m_flags (apply_calls cs (cu\<lparr>m_flags := Flags_Set (m_flags cu) (parsed_flag b),
                                               trace := trace cu @ [parse_call b]\<rparr>))"
  shows "balanced a cu cu'"
  using balanced_cong[OF assms(2,3)] balanced_trans[OF mark_balanced[OF assms(1)] apply_calls_balanced]
  by blast

subsection \<open>The lazy fields\<close>

lemma call_accessor_shape:
  assumes "call_accessor b module cu = Inr cu'"
  shows "cu' = cu
       \<or> (trace cu' = trace cu \<and> m_flags cu' = Flags_Set (m_flags cu) (parsed_flag b))
       \<or> (Flags_IsClear (m_flags cu) (parsed_flag b) \<and>
           (\<exists>cs. trace cu' = trace (apply_calls cs (cu\<lparr>m_flags := Flags_Set (m_flags cu) (parsed_flag b),
                                               trace := trace cu @ [parse_call b]\<rparr>))
               \<and> m_flags cu' = m_flags (apply_calls cs (cu\<lparr>m_flags := Flags_Set (m_flags cu) (parsed_flag b),
                                               trace := trace cu @ [parse_call b]\<rparr>))))"
proof (cases b)
  case CallGetLanguage
  with assms show ?thesis
    by (fastforce simp add: call_accessor_def GetLanguage_def Let_def
        split: if_splits option.splits)
next
  case CallGetLineTable
  with assms show ?thesis
    by (fastforce simp add: call_accessor_def GetLineTable_def Let_def
        split: if_splits option.splits)
next
  case CallGetDebugMacros
  with assms show ?thesis
    by (fastforce simp add: call_accessor_def GetDebugMacros_def Let_def
        split: if_splits option.splits)
next
  case CallGetImportedModules
  with assms show ?thesis
    by (fastforce simp add: call_accessor_def GetImportedModules_def Let_def
        split: if_splits option.splits)
next
  case CallGetSupportFiles
  with assms show ?thesis
    by (fastforce simp add: call_accessor_def GetSupportFiles_def Let_def
        split: if_splits option.splits)
qed

lemma call_accessor_balanced:
  assumes "call_accessor b module cu = Inr cu'"
  shows "balanced a cu cu'"
proof -
  from call_accessor_shape[OF assms]
  consider (same) "cu' = cu"
    | (flag) "trace cu' = trace cu" "m_flags cu' = Flags_Set (m_flags cu) (parsed_flag b)"
    | (parse) cs where "Flags_IsClear (m_flags cu) (parsed_flag b)"
        "trace cu' = trace (apply_calls cs (cu\<lparr>m_flags := Flags_Set (m_flags cu) (parsed_flag b),
                                               trace := trace cu @ [parse_call b]\<rparr>))"
        "m_flags cu' = m_flags (apply_calls cs (cu\<lparr>m_flags := Flags_Set (m_flags cu) (parsed_flag b),
                                               trace := trace cu @ [parse_call b]\<rparr>))"
    by blast
  then show ?thesis
  proof cases
    case same
    then show ?thesis by (simp add: balanced_refl)
  next
    case flag
    have "trace cu' = trace (cu\<lparr>m_flags := Flags_Set (m_flags cu) (parsed_flag b)\<rparr>)"
      "m_flags cu' = m_flags (cu\<lparr>m_flags := Flags_Set (m_flags cu) (parsed_flag b)\<rparr>)"
      using flag by simp_all
    from balanced_cong[OF this flag_only_balanced] show ?thesis .
  next
    case parse
    then show ?thesis by (rule parse_step_balanced)
  qed
qed

lemma run_balanced:
  "call_accessors calls cu = Inr cu' \<Longrightarrow> balanced a cu cu'"
proof (induction calls arbitrary: cu)
  case Nil
  then show ?case by (simp add: balanced_refl)
next
  case (Cons c calls)
  obtain b module where c: "c = (b, module)" by (cases c)
  from Cons.prems c obtain cu1 where
    step: "call_accessor b module cu = Inr cu1" and rest: "call_accessors calls cu1 = Inr cu'"
    by (auto split: sum.splits)
  from call_accessor_balanced[OF step] Cons.IH[OF rest] show ?case
    by (rule balanced_trans)
qed

lemma call_accessor_flag_set:
  assumes "\<not> Flags_IsClear (m_flags cu) (parsed_flag a)"
  shows "call_accessor a module cu = Inr cu"
  using assms
  by (cases a) (simp_all add: call_accessor_def GetLanguage_def GetLineTable_def GetDebugMacros_def
      GetImportedModules_def GetSupportFiles_def)

lemma ctor_fresh:
  "invocations a (CompileUnit_ctor this ud f sid lang opt sfs) = 0"
  "resets a (CompileUnit_ctor this ud f sid lang opt sfs) = 0"
  by (simp_all add: invocations_def resets_def CompileUnit_ctor_def Let_def)

lemma no_setter_no_resets:
  "a \<noteq> CallGetLineTable \<Longrightarrow> a \<noteq> CallGetDebugMacros \<Longrightarrow> resets a cu = 0"
  by (simp add: resets_def clears_def)

text \<open>
  Claim C6, as amended. For each lazily resolved field (language, line table, debug
  macros, imported modules, support files), in any sequence of accessor calls since
  construction and whatever the symbol file answers (also when it leaves the value
  empty or unknown), the parse function of the symbol file has been called at most once
  more than the number of times the symbol file has handed null to the field's setter,
  which clears the field's flag; the language, the imported modules and the support
  files have no setter, and their parse function is called at most once. While the
  field's flag is set, an accessor call returns what is cached and leaves the unit as
  it is; and from a unit whose flag is set, any later accessor calls ask the symbol
  file for that field no more often than the flag has been cleared in between.
\<close>

theorem lazy_parse_at_most_once:
  "(call_accessors calls (CompileUnit_ctor this user_data primary sym_id language is_optimized sfs)
      = Inr cu' \<longrightarrow>
        count_list (trace cu') (parse_call a) \<le> 1 + length (filter (clears a) (trace cu'))
        \<and> (a \<noteq> CallGetLineTable \<and> a \<noteq> CallGetDebugMacros \<longrightarrow>
             count_list (trace cu') (parse_call a) \<le> 1))
   \<and> (\<not> Flags_IsClear (m_flags cu) (parsed_flag a) \<longrightarrow>
        call_accessor a module cu = Inr cu
        \<and> (call_accessors calls cu = Inr cu'' \<longrightarrow>
             count_list (trace cu'') (parse_call a) + length (filter (clears a) (trace cu))
               \<le> count_list (trace cu) (parse_call a) + length (filter (clears a) (trace cu''))))"
proof (intro conjI impI)
  let ?cu = "CompileUnit_ctor this user_data primary sym_id language is_optimized sfs"
  assume run: "call_accessors calls ?cu = Inr cu'"
  from run_balanced[OF run, of a]
  have b: "invocations a cu' \<le> 1 + resets a cu'"
    by (simp add: balanced_def ctor_fresh armed_def split: if_splits)
  then show "count_list (trace cu') (parse_call a) \<le> 1 + length (filter (clears a) (trace cu'))"
    by (simp add: invocations_def resets_def)
  assume "a \<noteq> CallGetLineTable \<and> a \<noteq> CallGetDebugMacros"
  with b no_setter_no_resets[of a cu'] show "count_list (trace cu') (parse_call a) \<le> 1"
    by (simp add: invocations_def)
next
  assume "\<not> Flags_IsClear (m_flags cu) (parsed_flag a)"
  then show "call_accessor a module cu = Inr cu"
    by (rule call_accessor_flag_set)
next
  assume f: "\<not> Flags_IsClear (m_flags cu) (parsed_flag a)" and run: "call_accessors calls cu = Inr cu''"
  from run_balanced[OF run, of a] f
  show "count_list (trace cu'') (parse_call a) + length (filter (clears a) (trace cu))
               \<le> count_list (trace cu) (parse_call a) + length (filter (clears a) (trace cu''))"
    by (simp add: balanced_def invocations_def resets_def armed_def)
qed

text \<open>
  A symbol file that has no line table, and hands nothing to the setter, is asked for
  it once: the second call finds the flag set.
\<close>

theorem lazy_parse_at_most_once_witness:
  "\<exists>cu1 cu2. call_accessors [(CallGetLineTable, Some silent_module)] fresh_unit = Inr cu1
     \<and> m_line_table_up cu1 = None
     \<and> count_list (trace cu1) CallParseLineTable = 1
     \<and> \<not> Flags_IsClear (m_flags cu1) flagsParsedLineTable
     \<and> call_accessor CallGetLineTable (Some silent_module) cu1 = Inr cu1
     \<and> call_accessors [(CallGetLineTable, Some silent_module), (CallGetLanguage, Some silent_module),
          (CallGetLineTable, None)] fresh_unit = Inr cu2
     \<and> filter (clears CallGetLineTable) (trace cu2) = []
     \<and> count_list (trace cu2) CallParseLineTable \<le> 1"
proof -
  define cu1 where "cu1 = fresh_unit\<lparr>m_flags := Flags_Set 0 flagsParsedLineTable, trace := [CallParseLineTable]\<rparr>"
  define cu2 where "cu2 = cu1\<lparr>m_flags := Flags_Set (m_flags cu1) flagsParsedLanguage, trace := [CallParseLineTable, CallParseLanguage]\<rparr>"
  have r1: "call_accessors [(CallGetLineTable, Some silent_module)] fresh_unit = Inr cu1"
    by (simp add: cu1_def fresh_unit_def CompileUnit_ctor_def call_accessor_def GetLineTable_def
        silent_module_def silent_symfile_def Flags_IsClear_def Let_def apply_calls_def)
  have f1: "\<not> Flags_IsClear (m_flags cu1) flagsParsedLineTable"
    by (simp add: cu1_def Flags_IsClear_def Flags_Set_def flagsParsedLineTable_def)
  have r2: "call_accessors [(CallGetLineTable, Some silent_module), (CallGetLanguage, Some silent_module),
          (CallGetLineTable, None)] fresh_unit = Inr cu2"
    using f1
    apply (simp add: r1[simplified])
    apply (simp add: cu2_def cu1_def fresh_unit_def CompileUnit_ctor_def call_accessor_def GetLineTable_def GetLanguage_def
        silent_module_def silent_symfile_def  Let_def eLanguageTypeUnknown_def apply_calls_def)
    apply (simp add: Flags_IsClear_def Flags_Set_def flagsParsedLineTable_def flagsParsedLanguage_def)
    done
  have t1: "trace cu1 = [CallParseLineTable]" "m_line_table_up cu1 = None"
    by (simp_all add: cu1_def fresh_unit_def CompileUnit_ctor_def Let_def)
  have t2: "filter (clears CallGetLineTable) (trace cu2) = []"
    by (simp add: cu2_def clears_def)
  from lazy_parse_at_most_once[of "[(CallGetLineTable, Some silent_module), (CallGetLanguage, Some silent_module),
          (CallGetLineTable, None)]" 100 0 a_c 7 eLanguageTypeUnknown eLazyBoolCalculate "[]" cu2 CallGetLineTable cu1 "Some silent_module" cu2]
    r1 r2 f1 t1 t2
  show ?thesis
    by (intro exI[of _ cu1] exI[of _ cu2]) (simp add: fresh_unit_def)
qed

text \<open>
  Claim C6 as stated fails for the line table (and likewise for the debug macros): a
  symbol file that hands null to \<^verbatim>\<open>SetLineTable\<close> while it parses clears the flag that
  \<open>GetLineTable\<close> has set before the call (lines 169 and 178 to 179); the value stays
  empty, and the second call of \<open>GetLineTable\<close> asks the symbol file again.
\<close>

theorem lazy_parse_twice_counterexample:
  "call_accessors [(CallGetLineTable, Some nulling_module), (CallGetLineTable, Some nulling_module)]
     fresh_unit
   = Inr (fresh_unit\<lparr>trace := [CallParseLineTable, SymbolFileCalls (DoSetLineTable None),
                                CallParseLineTable, SymbolFileCalls (DoSetLineTable None)]\<rparr>)
   \<and> count_list [CallParseLineTable, SymbolFileCalls (DoSetLineTable None),
                 CallParseLineTable, SymbolFileCalls (DoSetLineTable None)] CallParseLineTable = 2"
  by (simp add: fresh_unit_def CompileUnit_ctor_def call_accessor_def GetLineTable_def
      nulling_module_def nulling_symfile_def silent_symfile_def Let_def apply_calls_def
      SetLineTable_def Flags_IsClear_def Flags_Set_def Flags_Clear_def flagsParsedLineTable_def)

lemma apply_calls_language: "m_language (apply_calls cs cu) = m_language cu"
  unfolding apply_calls_def
proof (induction cs arbitrary: cu)
  case Nil
  show ?case by simp
next
  case (Cons c cs)
  have "m_language (apply_call c cu) = m_language cu"
    by (cases c) (simp_all add: SetLineTable_def SetDebugMacros_def)
  with Cons[of "apply_call c cu"] show ?case by simp
qed

lemma call_accessor_keeps_language:
  assumes "m_language cu \<noteq> eLanguageTypeUnknown" and "call_accessor a module cu = Inr cu'"
  shows "m_language cu' = m_language cu \<and> (CallParseLanguage \<notin> set (trace cu) \<longrightarrow> CallParseLanguage \<notin> set (trace cu'))"
  using assms
  by (cases a) (auto simp add: call_accessor_def GetLanguage_def GetLineTable_def GetDebugMacros_def
      GetImportedModules_def GetSupportFiles_def apply_calls_language apply_calls_trace Let_def
      split: if_splits option.splits)

lemma run_keeps_language:
  "m_language cu \<noteq> eLanguageTypeUnknown \<Longrightarrow> CallParseLanguage \<notin> set (trace cu) \<Longrightarrow>
   call_accessors calls cu = Inr cu' \<Longrightarrow>
   m_language cu' = m_language cu \<and> CallParseLanguage \<notin> set (trace cu')"
proof (induction calls arbitrary: cu)
  case Nil
  then show ?case by simp
next
  case (Cons c calls)
  obtain a module where c: "c = (a, module)" by (cases c)
  from Cons.prems(3) c obtain cu1 where
    step: "call_accessor a module cu = Inr cu1" and rest: "call_accessors calls cu1 = Inr cu'"
    by (auto split: sum.splits)
  from call_accessor_keeps_language[OF Cons.prems(1) step] Cons.prems(2)
  have k: "m_language cu1 = m_language cu" "CallParseLanguage \<notin> set (trace cu1)"
    by simp_all
  with Cons.prems(1) have "m_language cu1 \<noteq> eLanguageTypeUnknown" by simp
  from Cons.IH[OF this k(2) rest] k(1) show ?case by simp
qed

lemma GetLanguage_known:
  "m_language cu \<noteq> eLanguageTypeUnknown \<Longrightarrow> GetLanguage module cu = Inr (m_language cu, cu)"
  by (simp add: GetLanguage_def)

lemma ctor_language: "m_language (CompileUnit_ctor this ud f sid lang opt sfs) = lang"
  "trace (CompileUnit_ctor this ud f sid lang opt sfs) = []"
  by (simp_all add: CompileUnit_ctor_def Let_def)

text \<open>
  Claim C10. A compile unit constructed with a language other than unknown has its language
  flag set by the constructor; \<open>GetLanguage\<close> returns exactly the constructed language and
  leaves the unit, and so the trace, as it is: the symbol file's \<open>ParseLanguage\<close> is never
  called, neither at once nor after any sequence of accessor calls.
\<close>

theorem GetLanguage_constructed:
  assumes "language \<noteq> eLanguageTypeUnknown"
  shows "GetLanguage module (CompileUnit_ctor this user_data primary sym_id language is_optimized sfs)
           = Inr (language, CompileUnit_ctor this user_data primary sym_id language is_optimized sfs)
       \<and> \<not> Flags_IsClear (m_flags (CompileUnit_ctor this user_data primary sym_id language is_optimized sfs))
             flagsParsedLanguage
       \<and> (call_accessors calls (CompileUnit_ctor this user_data primary sym_id language is_optimized sfs)
             = Inr cu' \<longrightarrow>
           GetLanguage module' cu' = Inr (language, cu') \<and> CallParseLanguage \<notin> set (trace cu'))"
proof (intro conjI impI)
  let ?cu = "CompileUnit_ctor this user_data primary sym_id language is_optimized sfs"
  from assms show "GetLanguage module ?cu = Inr (language, ?cu)"
    using GetLanguage_known[of ?cu module] by (simp add: ctor_language)
  from assms show "\<not> Flags_IsClear (m_flags ?cu) flagsParsedLanguage"
    by (simp add: CompileUnit_ctor_def Let_def Flags_IsClear_def Flags_Set_def flagsParsedLanguage_def)
  assume run: "call_accessors calls ?cu = Inr cu'"
  from assms have "m_language ?cu \<noteq> eLanguageTypeUnknown" by (simp add: ctor_language)
  from run_keeps_language[OF this _ run] have k: "m_language cu' = language"
    "CallParseLanguage \<notin> set (trace cu')"
    by (simp_all add: ctor_language)
  from k(2) show "CallParseLanguage \<notin> set (trace cu')" .
  from k(1) assms show "GetLanguage module' cu' = Inr (language, cu')"
    using GetLanguage_known[of cu' module'] by simp
qed

text \<open>A unit constructed as C99, with a symbol file that would answer otherwise.\<close>

theorem GetLanguage_constructed_witness:
  "eLanguageTypeC99 \<noteq> eLanguageTypeUnknown
   \<and> GetLanguage (Some \<lparr> module_ptr = 1, GetSymbolFile = Some c99_symfile \<rparr>)
        (CompileUnit_ctor 100 0 a_c 7 eLanguageTypeC99 eLazyBoolCalculate [])
      = Inr (eLanguageTypeC99, CompileUnit_ctor 100 0 a_c 7 eLanguageTypeC99 eLazyBoolCalculate [])
   \<and> trace (CompileUnit_ctor 100 0 a_c 7 eLanguageTypeC99 eLazyBoolCalculate []) = []"
proof -
  have h: "eLanguageTypeC99 \<noteq> eLanguageTypeUnknown"
    by (simp add: eLanguageTypeC99_def eLanguageTypeUnknown_def)
  from GetLanguage_constructed[OF h, of "Some \<lparr> module_ptr = 1, GetSymbolFile = Some c99_symfile \<rparr>"
      100 0 a_c 7 eLazyBoolCalculate "[]" "[]"] h
  show ?thesis by (simp add: ctor_language)
qed

lemma GetLineTable_flag_set:
  "\<not> Flags_IsClear (m_flags cu) flagsParsedLineTable \<Longrightarrow>
   GetLineTable module cu = Inr (m_line_table_up cu, cu)"
  by (simp add: GetLineTable_def)

lemma flagsParsedLineTable_nonzero: "flagsParsedLineTable \<noteq> 0"
  by (simp add: flagsParsedLineTable_def)

lemma apply_call_table_flag:
  assumes "Flags_IsClear (m_flags cu) flagsParsedLineTable \<longrightarrow> m_line_table_up cu = None"
  shows "(Flags_IsClear (m_flags (apply_call c cu)) flagsParsedLineTable \<longrightarrow>
            m_line_table_up (apply_call c cu) = None)"
proof (cases c)
  case (DoSetLineTable lt)
  then show ?thesis
    by (cases lt) (simp_all add: SetLineTable_def Flags_IsClear_Set_same flagsParsedLineTable_nonzero)
next
  case (DoSetDebugMacros dm)
  have "flagsParsedDebugMacros AND flagsParsedLineTable = 0"
    by (simp add: flagsParsedDebugMacros_def flagsParsedLineTable_def)
  with assms DoSetDebugMacros show ?thesis
    by (cases dm) (simp_all add: SetDebugMacros_def Flags_IsClear_Set_other Flags_IsClear_Clear_other)
qed

lemma apply_calls_table_flag:
  "(Flags_IsClear (m_flags cu) flagsParsedLineTable \<longrightarrow> m_line_table_up cu = None) \<Longrightarrow>
   (Flags_IsClear (m_flags (apply_calls cs cu)) flagsParsedLineTable \<longrightarrow>
      m_line_table_up (apply_calls cs cu) = None)"
  unfolding apply_calls_def
proof (induction cs arbitrary: cu)
  case Nil
  then show ?case by simp
next
  case (Cons c cs)
  from Cons.IH[OF apply_call_table_flag[OF Cons.prems, of c]] show ?case by simp
qed

lemma apply_call_keeps_set:
  assumes "c \<noteq> DoSetLineTable None" and "\<not> Flags_IsClear (m_flags cu) flagsParsedLineTable"
  shows "\<not> Flags_IsClear (m_flags (apply_call c cu)) flagsParsedLineTable"
proof (cases c)
  case (DoSetLineTable lt)
  with assms(1) show ?thesis
    by (cases lt) (simp_all add: SetLineTable_def Flags_IsClear_Set_same flagsParsedLineTable_nonzero)
next
  case (DoSetDebugMacros dm)
  have "flagsParsedDebugMacros AND flagsParsedLineTable = 0"
    by (simp add: flagsParsedDebugMacros_def flagsParsedLineTable_def)
  with assms(2) DoSetDebugMacros show ?thesis
    by (cases dm) (simp_all add: SetDebugMacros_def Flags_IsClear_Set_other Flags_IsClear_Clear_other)
qed

lemma apply_calls_keeps_set:
  "DoSetLineTable None \<notin> set cs \<Longrightarrow> \<not> Flags_IsClear (m_flags cu) flagsParsedLineTable \<Longrightarrow>
   \<not> Flags_IsClear (m_flags (apply_calls cs cu)) flagsParsedLineTable"
  unfolding apply_calls_def
proof (induction cs arbitrary: cu)
  case Nil
  then show ?case by simp
next
  case (Cons c cs)
  from Cons.prems have "c \<noteq> DoSetLineTable None" "DoSetLineTable None \<notin> set cs" by auto
  from Cons.IH[OF this(2) apply_call_keeps_set[OF this(1) Cons.prems(2)]] show ?case by simp
qed

text \<open>
  Claim C7, as amended. \<open>SetLineTable\<close> with a null table discards the line table and
  clears the line table's flag, so that the next \<open>GetLineTable\<close> (the module having a
  symbol file) calls the symbol file's \<open>ParseLineTable\<close> exactly once more. If the symbol
  file hands no null to \<^verbatim>\<open>SetLineTable\<close> during that call, the flag is set afterwards,
  and whenever it is set the calls of \<open>GetLineTable\<close> after that one return what is
  cached and call nothing. If the flag is clear afterwards (the symbol file itself has
  handed null to the setter), the next \<open>GetLineTable\<close> calls \<open>ParseLineTable\<close> once more.
\<close>

theorem SetLineTable_null_resets:
  assumes "module = Some m" and "GetSymbolFile m = Some symfile"
    and "cu1 = SetLineTable None cu"
    and "cua = cu1\<lparr>m_flags := Flags_Set (m_flags cu1) flagsParsedLineTable,
                    trace := trace cu @ [CallParseLineTable]\<rparr>"
    and "cu2 = apply_calls (ParseLineTable symfile cua) cua"
  shows "m_line_table_up cu1 = None \<and> Flags_IsClear (m_flags cu1) flagsParsedLineTable
       \<and> trace cu1 = trace cu
       \<and> GetLineTable module cu1 = Inr (m_line_table_up cu2, cu2)
       \<and> trace cu2 = trace cu @ [CallParseLineTable] @ map SymbolFileCalls (ParseLineTable symfile cua)
       \<and> count_list (trace cu2) CallParseLineTable = count_list (trace cu) CallParseLineTable + 1
       \<and> (DoSetLineTable None \<notin> set (ParseLineTable symfile cua) \<longrightarrow>
            \<not> Flags_IsClear (m_flags cu2) flagsParsedLineTable)
       \<and> (\<not> Flags_IsClear (m_flags cu2) flagsParsedLineTable \<longrightarrow>
            (\<forall>module'. GetLineTable module' cu2 = Inr (m_line_table_up cu2, cu2)))
       \<and> (Flags_IsClear (m_flags cu2) flagsParsedLineTable \<longrightarrow>
            (\<exists>cu3. GetLineTable module cu2 = Inr (m_line_table_up cu3, cu3)
               \<and> count_list (trace cu3) CallParseLineTable
                   = count_list (trace cu2) CallParseLineTable + 1))"
proof -
  have c1: "m_line_table_up cu1 = None" "Flags_IsClear (m_flags cu1) flagsParsedLineTable"
    "trace cu1 = trace cu"
    using assms(3) by (simp_all add: SetLineTable_def Flags_IsClear_Clear)
  have g: "GetLineTable module cu1 = Inr (m_line_table_up cu2, cu2)"
    using c1 assms(1,2,4,5) by (simp add: GetLineTable_def Let_def)
  have fa: "\<not> Flags_IsClear (m_flags cua) flagsParsedLineTable"
    using assms(4) by (simp add: Flags_IsClear_Set_same flagsParsedLineTable_nonzero)
  have t2: "trace cu2 = trace cu @ [CallParseLineTable] @ map SymbolFileCalls (ParseLineTable symfile cua)"
    using assms(4,5) by (simp add: apply_calls_trace)
  have n: "count_list (map SymbolFileCalls cs) CallParseLineTable = 0" for cs
    by (induction cs) simp_all
  have k2: "count_list (trace cu2) CallParseLineTable = count_list (trace cu) CallParseLineTable + 1"
    by (simp add: t2 n)
  have s2: "DoSetLineTable None \<notin> set (ParseLineTable symfile cua) \<longrightarrow>
            \<not> Flags_IsClear (m_flags cu2) flagsParsedLineTable"
    using apply_calls_keeps_set[OF _ fa] assms(5) by blast
  have e2: "Flags_IsClear (m_flags cu2) flagsParsedLineTable \<longrightarrow> m_line_table_up cu2 = None"
    unfolding assms(5) using fa by (intro apply_calls_table_flag) simp
  have again: "\<exists>cu3. GetLineTable module cu2 = Inr (m_line_table_up cu3, cu3)
               \<and> count_list (trace cu3) CallParseLineTable
                   = count_list (trace cu2) CallParseLineTable + 1"
    if "Flags_IsClear (m_flags cu2) flagsParsedLineTable"
  proof -
    let ?cub = "cu2\<lparr>m_flags := Flags_Set (m_flags cu2) flagsParsedLineTable,
                    trace := trace cu2 @ [CallParseLineTable]\<rparr>"
    let ?cu3 = "apply_calls (ParseLineTable symfile ?cub) ?cub"
    from that e2 have "GetLineTable module cu2 = Inr (m_line_table_up ?cu3, ?cu3)"
      using assms(1,2) by (simp add: GetLineTable_def Let_def)
    moreover have "count_list (trace ?cu3) CallParseLineTable
                   = count_list (trace cu2) CallParseLineTable + 1"
      by (simp add: apply_calls_trace n)
    ultimately show ?thesis by blast
  qed
  from c1 g t2 k2 s2 GetLineTable_flag_set again show ?thesis
    by blast
qed

text \<open>
  The symbol file without a line table is asked once, not again on the second call, and
  once more after the table has been reset.
\<close>

theorem SetLineTable_null_resets_witness:
  "\<exists>cu0 cu2. GetLineTable (Some silent_module) fresh_unit = Inr (None, cu0)
     \<and> trace cu0 = [CallParseLineTable]
     \<and> GetLineTable (Some silent_module) cu0 = Inr (None, cu0)
     \<and> GetLineTable (Some silent_module) (SetLineTable None cu0) = Inr (None, cu2)
     \<and> trace cu2 = [CallParseLineTable, CallParseLineTable]
     \<and> \<not> Flags_IsClear (m_flags cu2) flagsParsedLineTable
     \<and> GetLineTable (Some silent_module) cu2 = Inr (None, cu2)"
proof -
  define cu0 where "cu0 = fresh_unit\<lparr>m_flags := Flags_Set 0 flagsParsedLineTable, trace := [CallParseLineTable]\<rparr>"
  define cua where "cua = (SetLineTable None cu0)\<lparr>m_flags := Flags_Set (m_flags (SetLineTable None cu0)) flagsParsedLineTable,
                    trace := trace cu0 @ [CallParseLineTable]\<rparr>"
  define cu2 where "cu2 = apply_calls (ParseLineTable silent_symfile cua) cua"
  have g0: "GetLineTable (Some silent_module) fresh_unit = Inr (None, cu0)"
    by (simp add: cu0_def fresh_unit_def CompileUnit_ctor_def GetLineTable_def
        silent_module_def silent_symfile_def Flags_IsClear_def Let_def apply_calls_def)
  have t0: "trace cu0 = [CallParseLineTable]" "m_line_table_up cu0 = None"
    by (simp_all add: cu0_def fresh_unit_def CompileUnit_ctor_def Let_def)
  have f0: "\<not> Flags_IsClear (m_flags cu0) flagsParsedLineTable"
    by (simp add: cu0_def Flags_IsClear_Set_same flagsParsedLineTable_nonzero)
  have s: "ParseLineTable silent_symfile = (\<lambda>cu. [])" "GetSymbolFile silent_module = Some silent_symfile"
    by (simp_all add: silent_symfile_def silent_module_def)
  have l2: "m_line_table_up cu2 = None"
    by (simp add: cu2_def cua_def s apply_calls_def SetLineTable_def)
  from SetLineTable_null_resets[OF refl s(2) refl cua_def cu2_def] g0 t0 f0 l2
    GetLineTable_flag_set[OF f0, of "Some silent_module"]
  show ?thesis
    by (intro exI[of _ cu0] exI[of _ cu2]) (simp add: s)
qed

text \<open>
  Claim C7 as stated fails in its last part: after the table of the example's unit has
  been reset, a symbol file that hands null to \<^verbatim>\<open>SetLineTable\<close> is asked by the next
  \<open>GetLineTable\<close>, and asked again by the one after it.
\<close>

theorem SetLineTable_null_counterexample:
  "GetLineTable (Some nulling_module) (SetLineTable None loaded_unit)
     = Inr (None, (SetLineTable None loaded_unit)
              \<lparr>trace := trace loaded_unit @
                         [CallParseLineTable, SymbolFileCalls (DoSetLineTable None)]\<rparr>)
   \<and> GetLineTable (Some nulling_module)
        ((SetLineTable None loaded_unit)
              \<lparr>trace := trace loaded_unit @
                         [CallParseLineTable, SymbolFileCalls (DoSetLineTable None)]\<rparr>)
     = Inr (None, (SetLineTable None loaded_unit)
              \<lparr>trace := trace loaded_unit @
                         [CallParseLineTable, SymbolFileCalls (DoSetLineTable None),
                          CallParseLineTable, SymbolFileCalls (DoSetLineTable None)]\<rparr>)"
  by (simp add: loaded_unit_def fresh_unit_def CompileUnit_ctor_def GetLineTable_def
      nulling_module_def nulling_symfile_def silent_symfile_def Let_def apply_calls_def
      SetLineTable_def Flags_IsClear_def Flags_Set_def Flags_Clear_def flagsParsedLineTable_def)

subsection \<open>The function registry\<close>

lemma map_assign_distinct:
  assumes "distinct (map fst entries)"
  shows "distinct (map fst (map_assign slot k v entries))"
proof (cases "k \<in> set (map fst entries)")
  case True
  have "map fst (map (\<lambda>p. if fst p = k then (k, v) else p) entries) = map fst entries"
    by (induction entries) auto
  then have "map fst (map_assign slot k v entries) = map fst entries"
    using True by (simp only: map_assign_def if_True)
  with assms show ?thesis by (simp only:)
next
  case False
  let ?n = "slot k (map fst entries)"
  have "distinct (map fst (take ?n entries @ drop ?n entries))"
    using assms by (simp only: append_take_drop_id)
  then have "distinct (map fst (take ?n entries) @ map fst (drop ?n entries))"
    by (simp only: map_append)
  moreover have "k \<notin> set (map fst (take ?n entries))" "k \<notin> set (map fst (drop ?n entries))"
    using False by (auto dest: in_set_takeD in_set_dropD)
  ultimately show ?thesis using False
    by (auto simp: map_assign_def Let_def)
qed

lemma map_assign_ids:
  "list_all (\<lambda>p. fst p = GetID (snd p)) entries \<Longrightarrow>
   list_all (\<lambda>p. fst p = GetID (snd p)) (map_assign slot (GetID f) f entries)"
  by (auto simp: map_assign_def Let_def list_all_iff dest: in_set_takeD in_set_dropD)

lemma map_assign_new:
  assumes "k \<notin> set (map fst entries)"
  shows "set (map_assign slot k v entries) = insert (k, v) (set entries)"
proof -
  let ?n = "slot k (map fst entries)"
  have "set (take ?n entries) \<union> set (drop ?n entries) = set (take ?n entries @ drop ?n entries)"
    by (simp only: set_append)
  then have "set (take ?n entries) \<union> set (drop ?n entries) = set entries"
    by (simp only: append_take_drop_id)
  with assms show ?thesis
    by (auto simp: map_assign_def Let_def)
qed

lemma registry_ok_ctor: "registry_ok (CompileUnit_ctor this ud f sid lang opt sfs)"
  by (simp add: registry_ok_def CompileUnit_ctor_def Let_def)

lemma registry_ok_AddFunction: "registry_ok cu \<Longrightarrow> registry_ok (AddFunction slot f cu)"
  by (simp add: registry_ok_def AddFunction_def map_assign_distinct map_assign_ids)

lemma registry_ok_fold: "registry_ok cu \<Longrightarrow> registry_ok (fold (AddFunction slot) fs cu)"
  by (induction fs arbitrary: cu) (simp_all add: registry_ok_AddFunction)

lemma registered_set:
  assumes "distinct (map GetID fs)"
    and "GetID ` set fs \<inter> set (map fst (m_functions_by_uid cu)) = {}"
  shows "set (m_functions_by_uid (fold (AddFunction slot) fs cu))
           = set (m_functions_by_uid cu) \<union> (\<lambda>f. (GetID f, f)) ` set fs"
  using assms
proof (induction fs arbitrary: cu)
  case Nil
  then show ?case by simp
next
  case (Cons f fs)
  from Cons.prems(2) have new: "GetID f \<notin> set (map fst (m_functions_by_uid cu))"
    by auto
  have s1: "set (m_functions_by_uid (AddFunction slot f cu))
      = insert (GetID f, f) (set (m_functions_by_uid cu))"
    using map_assign_new[OF new] by (simp add: AddFunction_def)
  then have k1: "set (map fst (m_functions_by_uid (AddFunction slot f cu)))
      = insert (GetID f) (set (map fst (m_functions_by_uid cu)))"
    by simp
  from Cons.prems have "GetID ` set fs \<inter> set (map fst (m_functions_by_uid (AddFunction slot f cu))) = {}"
    unfolding k1 by auto
  with Cons.prems(1) have "set (m_functions_by_uid (fold (AddFunction slot) fs (AddFunction slot f cu)))
           = set (m_functions_by_uid (AddFunction slot f cu)) \<union> (\<lambda>f. (GetID f, f)) ` set fs"
    by (intro Cons.IH) simp_all
  with s1 show ?case by simp
qed

lemma distinct_map_sort_key: "distinct (map f (sort_key f xs)) = distinct (map f xs)"
  by (induction xs) (simp_all add: distinct_insort_key)

lemma registry_ok_ascending:
  assumes "registry_ok cu"
  shows "sorted_wrt (<) (map GetID (sort_key GetID (map snd (m_functions_by_uid cu))))"
proof -
  from assms have "map GetID (map snd (m_functions_by_uid cu)) = map fst (m_functions_by_uid cu)"
    by (auto simp: registry_ok_def list_all_iff)
  moreover from assms have "distinct (map fst (m_functions_by_uid cu))"
    by (simp add: registry_ok_def)
  ultimately have "distinct (map GetID (map snd (m_functions_by_uid cu)))"
    by (simp only:)
  then have "distinct (map GetID (sort_key GetID (map snd (m_functions_by_uid cu))))"
    by (simp only: distinct_map_sort_key)
  then show ?thesis
    by (simp add: strict_sorted_iff)
qed

lemma recording_loop:
  "ForeachFunction_loop (\<lambda>s f. (stop f, s @ [f])) xs acc
     = acc @ takeWhile (\<lambda>f. \<not> stop f) xs @ take 1 (dropWhile (\<lambda>f. \<not> stop f) xs)"
  by (induction xs arbitrary: acc) simp_all

lemma visited_eq:
  "visited stop cu = (let xs = sort_key GetID (map snd (m_functions_by_uid cu))
                      in takeWhile (\<lambda>f. \<not> stop f) xs @ take 1 (dropWhile (\<lambda>f. \<not> stop f) xs))"
  by (simp add: visited_def ForeachFunction_def recording_loop)

lemma visited_all: "visited (\<lambda>f. False) cu = sort_key GetID (map snd (m_functions_by_uid cu))"
proof -
  have tw: "takeWhile (\<lambda>f. True) xs = xs" "dropWhile (\<lambda>f. True) xs = []"
    for xs :: "Function list"
    by (induction xs) simp_all
  show ?thesis
    by (simp add: visited_eq Let_def tw)
qed

lemma ascending_unique:
  assumes "sorted_wrt (<) (map GetID xs)" "sorted_wrt (<) (map GetID ys)" "set xs = set ys"
  shows "xs = ys"
proof -
  have "map GetID xs = map GetID ys"
    using assms by (intro sorted_distinct_set_unique) (auto simp: strict_sorted_iff)
  moreover have "inj_on GetID (set xs)"
    using assms(1) by (simp add: strict_sorted_iff distinct_map)
  ultimately show ?thesis
    using assms(3) by (metis inj_on_map_eq_map Un_absorb)
qed

lemma prefix_until:
  "takeWhile P xs @ take 1 (dropWhile P xs) = take (Suc (length (takeWhile P xs))) xs"
  by (induction xs) simp_all

lemma registered_functions:
  assumes "distinct (map GetID fs)"
  shows "set (map snd (m_functions_by_uid
            (fold (AddFunction slot) fs (CompileUnit_ctor this ud f sid lang opt sfs)))) = set fs"
proof -
  have "m_functions_by_uid (CompileUnit_ctor this ud f sid lang opt sfs) = []"
    by (simp add: CompileUnit_ctor_def Let_def)
  with registered_set[OF assms, of "CompileUnit_ctor this ud f sid lang opt sfs" slot]
  have "set (m_functions_by_uid (fold (AddFunction slot) fs (CompileUnit_ctor this ud f sid lang opt sfs)))
          = (\<lambda>f. (GetID f, f)) ` set fs"
    by simp
  then show ?thesis
    by (simp add: image_image)
qed

text \<open>
  Claim C8. \<open>ForeachFunction\<close> calls the visitor on the registered functions in strictly
  ascending order of their ids, whatever the order in which \<open>AddFunction\<close> registered them
  (the same functions, with distinct ids, registered in another order and kept by the
  container in another order are visited identically, and all of them are visited when
  the visitor never stops), and it stops at the first function on which the visitor
  returns true: the functions visited are those before it in ascending order, and it.
\<close>

theorem ForeachFunction_ascending:
  assumes "cu = fold (AddFunction slot) fs
                  (CompileUnit_ctor this user_data primary sym_id language is_optimized sfs)"
  shows "sorted_wrt (<) (map GetID (visited stop cu))
       \<and> visited stop cu =
           takeWhile (\<lambda>f. \<not> stop f) (visited (\<lambda>f. False) cu)
             @ take 1 (dropWhile (\<lambda>f. \<not> stop f) (visited (\<lambda>f. False) cu))
       \<and> (distinct (map GetID fs) \<longrightarrow> set (visited (\<lambda>f. False) cu) = set fs)
       \<and> (distinct (map GetID fs) \<and> distinct (map GetID fs') \<and> set fs' = set fs \<longrightarrow>
            ForeachFunction lambda
              (fold (AddFunction slot') fs'
                 (CompileUnit_ctor this' user_data' primary' sym_id' language' is_optimized' sfs')) s
            = ForeachFunction lambda cu s)"
proof (intro conjI impI)
  let ?all = "sort_key GetID (map snd (m_functions_by_uid cu))"
  have ok: "registry_ok cu"
    unfolding assms by (intro registry_ok_fold registry_ok_ctor)
  then have asc: "sorted_wrt (<) (map GetID ?all)"
    by (rule registry_ok_ascending)
  have v: "visited stop cu = take (Suc (length (takeWhile (\<lambda>f. \<not> stop f) ?all))) ?all"
    by (simp only: visited_eq Let_def prefix_until)
  from asc show "sorted_wrt (<) (map GetID (visited stop cu))"
    unfolding v by (simp only: take_map [symmetric] sorted_wrt_take)
  show "visited stop cu =
           takeWhile (\<lambda>f. \<not> stop f) (visited (\<lambda>f. False) cu)
             @ take 1 (dropWhile (\<lambda>f. \<not> stop f) (visited (\<lambda>f. False) cu))"
    by (simp only: visited_all) (simp only: visited_eq Let_def)
  {
    assume "distinct (map GetID fs)"
    then show "set (visited (\<lambda>f. False) cu) = set fs"
      unfolding assms visited_all by (simp only: set_sort registered_functions)
  }
  assume h: "distinct (map GetID fs) \<and> distinct (map GetID fs') \<and> set fs' = set fs"
  let ?cu' = "fold (AddFunction slot') fs'
                 (CompileUnit_ctor this' user_data' primary' sym_id' language' is_optimized' sfs')"
  let ?all' = "sort_key GetID (map snd (m_functions_by_uid ?cu'))"
  have "registry_ok ?cu'"
    by (intro registry_ok_fold registry_ok_ctor)
  then have asc': "sorted_wrt (<) (map GetID ?all')"
    by (rule registry_ok_ascending)
  have "set ?all' = set fs'"
    using h by (simp only: set_sort registered_functions)
  moreover have "set ?all = set fs"
    using h unfolding assms by (simp only: set_sort registered_functions)
  ultimately have "set ?all' = set ?all"
    using h by simp
  with asc' asc have "?all' = ?all"
    by (rule ascending_unique)
  then show "ForeachFunction lambda ?cu' s = ForeachFunction lambda cu s"
    by (simp add: ForeachFunction_def)
qed

text \<open>The ids 5, 1, 3 are enumerated as 1, 3, 5; a visitor that stops at 3 sees 1 and 3.\<close>

theorem ForeachFunction_ascending_witness:
  "visited (\<lambda>f. False) (fold (AddFunction slot_back) [fn 5, fn 1, fn 3] fresh_unit) = [fn 1, fn 3, fn 5]
   \<and> visited (\<lambda>f. GetID f = 3) (fold (AddFunction slot_back) [fn 5, fn 1, fn 3] fresh_unit) = [fn 1, fn 3]
   \<and> map snd (m_functions_by_uid (fold (AddFunction slot_back) [fn 5, fn 1, fn 3] fresh_unit)) = [fn 5, fn 1, fn 3]
   \<and> visited (\<lambda>f. False) (fold (AddFunction slot_back) [fn 3, fn 5, fn 1] fresh_unit)
       = visited (\<lambda>f. False) (fold (AddFunction slot_back) [fn 5, fn 1, fn 3] fresh_unit)"
proof -
  have e: "m_functions_by_uid (fold (AddFunction slot_back) [fn 5, fn 1, fn 3] fresh_unit)
             = [(5, fn 5), (1, fn 1), (3, fn 3)]"
    by (simp add: AddFunction_def map_assign_def slot_back_def fn_def fresh_unit_def
        CompileUnit_ctor_def Let_def)
  have d: "distinct (map GetID [fn 5, fn 1, fn 3])" "distinct (map GetID [fn 3, fn 5, fn 1])"
    "set [fn 3, fn 5, fn 1] = set [fn 5, fn 1, fn 3]"
    by (auto simp add: fn_def)
  have a: "visited (\<lambda>f. False) (fold (AddFunction slot_back) [fn 5, fn 1, fn 3] fresh_unit) = [fn 1, fn 3, fn 5]"
    unfolding visited_all e by (simp add: fn_def word_le_nat_alt)
  from ForeachFunction_ascending[of "fold (AddFunction slot_back) [fn 5, fn 1, fn 3] fresh_unit"
      slot_back "[fn 5, fn 1, fn 3]" 100 0 a_c 7 eLanguageTypeUnknown eLazyBoolCalculate "[]"
      "\<lambda>f. GetID f = 3" "[fn 3, fn 5, fn 1]" "\<lambda>s f. (False, s @ [f])" slot_back
      100 0 a_c 7 eLanguageTypeUnknown eLazyBoolCalculate "[]" "[]"] d a e
  show ?thesis
    by (simp add: fresh_unit_def visited_def fn_def)
qed

lemma FindFunction_loop_find:
  "FindFunction_loop matching_lambda entries = find matching_lambda (map snd entries)"
  by (induction entries) simp_all

text \<open>
  Claim C2, as amended. \<open>FindFunction\<close> returns nothing, and calls nothing, when the module
  or its symbol file is unavailable. Otherwise it first has the symbol file parse all
  functions of the unit (one call, whose functions are registered), and then returns
  the first function satisfying the predicate in the iteration order of the registry's
  container, which \<open>FindFunction\<close> does not sort; it returns nothing exactly when no
  registered function satisfies the predicate.
\<close>

theorem FindFunction_container_order:
  "FindFunction slot None matching_lambda cu = (None, cu)
   \<and> (GetSymbolFile m = None \<longrightarrow> FindFunction slot (Some m) matching_lambda cu = (None, cu))
   \<and> (GetSymbolFile m = Some symbol_file \<and> FindFunction slot (Some m) matching_lambda cu = (r, cu2) \<longrightarrow>
        cu2 = fold (AddFunction slot)
                (ParseFunctions symbol_file (cu\<lparr>trace := trace cu @ [CallParseFunctions]\<rparr>))
                (cu\<lparr>trace := trace cu @ [CallParseFunctions]\<rparr>)
        \<and> r = find matching_lambda (map snd (m_functions_by_uid cu2))
        \<and> (r = None \<longleftrightarrow> \<not> (\<exists>p \<in> set (m_functions_by_uid cu2). matching_lambda (snd p))))"
  by (force simp add: FindFunction_def Let_def FindFunction_loop_find find_None_iff)

theorem FindFunction_container_order_witness:
  "\<exists>cu2. FindFunction slot_back (Some \<lparr> module_ptr = 1, GetSymbolFile = Some parsing_symfile \<rparr>)
            (\<lambda>f. True) fresh_unit = (Some (fn 4), cu2)
      \<and> map snd (m_functions_by_uid cu2) = [fn 4, fn 2]
      \<and> trace cu2 = [CallParseFunctions]
      \<and> FindFunction slot_back (Some \<lparr> module_ptr = 1, GetSymbolFile = None \<rparr>)
            (\<lambda>f. True) fresh_unit = (None, fresh_unit)"
proof -
  obtain r cu2 where f: "FindFunction slot_back
      (Some \<lparr> module_ptr = 1, GetSymbolFile = Some parsing_symfile \<rparr>) (\<lambda>f. True) fresh_unit = (r, cu2)"
    by (cases "FindFunction slot_back
      (Some \<lparr> module_ptr = 1, GetSymbolFile = Some parsing_symfile \<rparr>) (\<lambda>f. True) fresh_unit")
  have p: "ParseFunctions parsing_symfile = (\<lambda>cu. [fn 4, fn 2])"
    by (simp add: parsing_symfile_def)
  from FindFunction_container_order[of slot_back "\<lambda>f. True" fresh_unit
      "\<lparr> module_ptr = 1, GetSymbolFile = Some parsing_symfile \<rparr>" parsing_symfile r cu2] f
  have c: "cu2 = fold (AddFunction slot_back) [fn 4, fn 2]
                   (fresh_unit\<lparr>trace := trace fresh_unit @ [CallParseFunctions]\<rparr>)"
    and r: "r = find (\<lambda>f. True) (map snd (m_functions_by_uid cu2))"
    by (simp_all add: p)
  have e: "map snd (m_functions_by_uid cu2) = [fn 4, fn 2]" "trace cu2 = [CallParseFunctions]"
    unfolding c
    by (simp_all add: AddFunction_def map_assign_def slot_back_def fn_def fresh_unit_def
        CompileUnit_ctor_def Let_def)
  from FindFunction_container_order[of slot_back "\<lambda>f. True" fresh_unit
      "\<lparr> module_ptr = 1, GetSymbolFile = None \<rparr>"]
  have n: "FindFunction slot_back (Some \<lparr> module_ptr = 1, GetSymbolFile = None \<rparr>)
            (\<lambda>f. True) fresh_unit = (None, fresh_unit)"
    by simp
  from f r e n show ?thesis by simp
qed

text \<open>
  Claim C2 as stated fails: with the functions 2 and 1 registered in that order in a
  container that keeps insertion order, and a predicate that both satisfy,
  \<open>FindFunction\<close> returns the function 2, while the first match in ascending order of
  ids, the order in which \<open>ForeachFunction\<close> visits, is the function 1.
\<close>

theorem FindFunction_ascending_counterexample:
  "fst (FindFunction slot_back (Some silent_module) (\<lambda>f. True)
          (fold (AddFunction slot_back) [fn 2, fn 1] fresh_unit)) = Some (fn 2)
   \<and> visited (\<lambda>f. False)
        (snd (FindFunction slot_back (Some silent_module) (\<lambda>f. True)
          (fold (AddFunction slot_back) [fn 2, fn 1] fresh_unit))) = [fn 1, fn 2]
   \<and> fn 1 \<noteq> fn 2"
  by (simp add: FindFunction_def silent_module_def silent_symfile_def AddFunction_def map_assign_def
      slot_back_def fresh_unit_def CompileUnit_ctor_def Let_def visited_all)
    (simp add: fn_def word_le_nat_alt)

subsection \<open>The inline call-site search\<close>

lemma examine_sibling_append:
  "examine_sibling env d s r p c acc = acc @ examine_sibling env d s r p c []"
  by (auto simp add: examine_sibling_def Let_def split: option.splits prod.splits)

lemma fold_append_concat:
  "(\<And>x acc. x \<in> set xs \<Longrightarrow> f x acc = acc @ g x) \<Longrightarrow> fold f xs acc = acc @ concat (map g xs)"
  by (induction xs arbitrary: acc) simp_all

lemma examine_block_preorder:
  "examine_block env d s r blk sc_list
     = sc_list @ concat (map (\<lambda>(p, c). examine_sibling env d s r p c []) (preorder blk))"
proof (induction env d s r blk sc_list rule: examine_block.induct)
  case (1 env d s r uid info start ranges children sc_list)
  let ?blk = "Block uid info start ranges children"
  let ?visit = "\<lambda>(p, c). examine_sibling env d s r p c []"
  have step: "examine_block env d s r x (examine_sibling env d s r ?blk x acc)
        = acc @ (examine_sibling env d s r ?blk x [] @ concat (map ?visit (preorder x)))"
    if "x \<in> set children" for x acc
    using "1.IH"[OF that, of acc] examine_sibling_append[of env d s r ?blk x acc]
    by simp
  have "examine_block env d s r ?blk sc_list
      = sc_list @ concat (map (\<lambda>x. examine_sibling env d s r ?blk x [] @ concat (map ?visit (preorder x))) children)"
    unfolding examine_block.simps
    by (rule fold_append_concat) (rule step)
  also have "concat (map (\<lambda>x. examine_sibling env d s r ?blk x [] @ concat (map ?visit (preorder x))) children)
      = concat (map ?visit (preorder ?blk))"
  proof -
    have "concat (map (\<lambda>x. examine_sibling env d s r parent x [] @ concat (map ?visit (preorder x))) cs)
      = concat (map ?visit (concat (map (\<lambda>c. (parent, c) # preorder c) cs)))" for parent cs
      by (induction cs) simp_all
    then show ?thesis by simp
  qed
  finally show ?case .
qed

subsection \<open>The entries of the forward scan\<close>

lemma search_call_sites_not_longer:
  assumes "length (search_call_sites env spec scope entry sc_list) \<le> length sc_list"
  shows "search_call_sites env spec scope entry sc_list = sc_list"
proof (cases "CalculateSymbolContextFunction env (m_base_addr (le_range entry))")
  case None
  then show ?thesis by (simp add: search_call_sites_def Let_def)
next
  case (Some f)
  with assms show ?thesis
    by (simp add: search_call_sites_def Let_def examine_block_preorder)
qed

lemma scan_finds_returns:
  "scan_finds env lt fis found idx entry entries \<Longrightarrow>
   scan_line_table env scope lt fis found sc idx entry st
     = Some (fold (append_line_entry env scope sc) entries st)"
proof (induction entries arbitrary: idx entry st)
  case Nil
  then show ?case by (subst scan_line_table.simps) simp
next
  case (Cons e entries)
  let ?nxt = "find_line_entry env lt fis (idx + 1) found entry"
  from Cons.prems have i: "idx \<noteq> UINT32_MAX" and e: "e = entry"
    and r: "scan_finds env lt fis found (fst ?nxt) (snd ?nxt) entries"
    by (simp_all add: Let_def)
  from Cons.IH[OF r, of "append_line_entry env scope sc entry st"] i e show ?case
    by (subst scan_line_table.simps) (simp add: Let_def)
qed

lemma scan_returns_finds:
  assumes "scan_line_table env scope lt fis found sc idx entry st = Some st'"
  shows "\<exists>entries. scan_finds env lt fis found idx entry entries"
proof (rule scan_line_table.raw_induct
    [where P = "\<lambda>env scope lt fis found sc idx entry st st'.
                  \<exists>entries. scan_finds env lt fis found idx entry entries",
     OF _ assms], goal_cases)
  case (1 scan env scope lt fis found sc idx entry st st')
  show ?case
  proof (cases "idx \<noteq> UINT32_MAX")
    case False
    then have "scan_finds env lt fis found idx entry []" by simp
    then show ?thesis by blast
  next
    case True
    let ?nxt = "find_line_entry env lt fis (idx + 1) found entry"
    from True 1(2) have
      "scan env scope lt fis found sc (fst ?nxt) (snd ?nxt) (append_line_entry env scope sc entry st) = Some st'"
      by (simp add: Let_def)
    from 1(1)[OF this] obtain entries where
      "scan_finds env lt fis found (fst ?nxt) (snd ?nxt) entries"
      by blast
    with True have "scan_finds env lt fis found idx entry (entry # entries)"
      by (simp add: Let_def)
    then show ?thesis by blast
  qed
qed

lemma apply_calls_this_ptr: "this_ptr (apply_calls cs cu) = this_ptr cu"
  unfolding apply_calls_def
proof (induction cs arbitrary: cu)
  case Nil
  show ?case by simp
next
  case (Cons c cs)
  have "this_ptr (apply_call c cu) = this_ptr cu"
    by (cases c) (simp_all add: SetLineTable_def SetDebugMacros_def)
  with Cons[of "apply_call c cu"] show ?case by simp
qed

lemma GetSupportFiles_this_ptr:
  "GetSupportFiles module cu = Inr (files, cu') \<Longrightarrow> this_ptr cu' = this_ptr cu"
  by (auto simp add: GetSupportFiles_def Let_def apply_calls_this_ptr
      split: if_splits option.splits)

lemma GetLineTable_this_ptr:
  "GetLineTable module cu = Inr (lt, cu') \<Longrightarrow> this_ptr cu' = this_ptr cu"
  by (auto simp add: GetLineTable_def Let_def apply_calls_this_ptr
      split: if_splits option.splits)

lemma fold_append_line_entry:
  assumes "scope \<noteq> eSymbolContextLineEntry" and "this_ptr cu = this"
  shows "fold (append_line_entry env scope sc) entries (cu, sc_list)
     = (cu\<lparr>trace := trace cu @ concat (map (\<lambda>e.
            let resolved_sc = CalculateSymbolContext env (m_base_addr (le_range e)) scope
            in case (comp_unit resolved_sc, module_sp resolved_sc) of
                 (None, Some md) \<Rightarrow>
                   [ReportError md (GetFileAddress env (m_base_addr (le_range e)))]
               | _ \<Rightarrow> []) entries)\<rparr>,
        sc_list @ map (\<lambda>e.
            let resolved_sc = CalculateSymbolContext env (m_base_addr (le_range e)) scope
            in if comp_unit resolved_sc = Some this then resolved_sc
               else sc\<lparr>line_entry := e\<rparr>) entries)"
  using assms(2)
proof (induction entries arbitrary: cu sc_list)
  case Nil
  show ?case by simp
next
  case (Cons e entries)
  let ?r = "CalculateSymbolContext env (m_base_addr (le_range e)) scope"
  let ?errs = "case (comp_unit ?r, module_sp ?r) of
                 (None, Some md) \<Rightarrow> [ReportError md (GetFileAddress env (m_base_addr (le_range e)))]
               | _ \<Rightarrow> []"
  have step: "append_line_entry env scope sc e (cu, sc_list)
      = (cu\<lparr>trace := trace cu @ ?errs\<rparr>,
         sc_list @ [if comp_unit ?r = Some this then ?r else sc\<lparr>line_entry := e\<rparr>])"
    using assms(1) Cons.prems
    by (simp add: append_line_entry_def Let_def split: option.splits)
  have "this_ptr (cu\<lparr>trace := trace cu @ ?errs\<rparr>) = this"
    using Cons.prems by simp
  from Cons.IH[OF this] step show ?case
    by (simp add: Let_def)
qed

lemma fold_guarded:
  assumes "scope \<noteq> eSymbolContextLineEntry" and "this_ptr cu = this"
  shows "fold (append_line_entry env scope ((SymbolContext_ctor env (Some m))\<lparr>comp_unit := Some this\<rparr>))
           entries (cu, sc_list)
     = (cu\<lparr>trace := trace cu @ concat (map (guard_diagnostics env scope) entries)\<rparr>,
        sc_list @ map (guarded_context env scope m this) entries)"
proof -
  let ?sc = "(SymbolContext_ctor env (Some m))\<lparr>comp_unit := Some this\<rparr>"
  have d: "(\<lambda>e. let resolved_sc = CalculateSymbolContext env (m_base_addr (le_range e)) scope
            in case (comp_unit resolved_sc, module_sp resolved_sc) of
                 (None, Some md) \<Rightarrow>
                   [ReportError md (GetFileAddress env (m_base_addr (le_range e)))]
               | _ \<Rightarrow> []) = guard_diagnostics env scope"
    by (rule ext) (simp add: guard_diagnostics_def Let_def split: option.splits)
  have c: "(\<lambda>e. let resolved_sc = CalculateSymbolContext env (m_base_addr (le_range e)) scope
            in if comp_unit resolved_sc = Some this then resolved_sc
               else ?sc\<lparr>line_entry := e\<rparr>) = guarded_context env scope m this"
    by (rule ext) (simp add: guarded_context_def bare_context_def SymbolContext_ctor_def Let_def)
  from fold_append_line_entry[OF assms, of env ?sc entries sc_list] show ?thesis
    unfolding d c .
qed

subsection \<open>The example, evaluated\<close>

lemmas example_defs =
  block_F_def block_A_def block_A1_def block_B_def call_site_15_5_def func_F_def
  env0_def lookup_address_def resolved_def row_def rng_def addr_def inlined_at_def query_def
  a_c_def table0_def

lemma example_examine_block:
  "examine_block env0 \<lparr> decl_file = a_c, decl_line = 15, decl_column = 5 \<rparr>
     (query 15 (Some 5) True False) eSymbolContextEverything block_F []
   = [inlined_at 1 (rng 0x1010 0x20), inlined_at 2 (rng 0x1018 8), inlined_at 1 (rng 0x1040 0x10)]"
  by (simp add: example_defs examine_sibling_def GetRangeAtIndex_def
      LLDB_INVALID_COLUMN_NUMBER_def Let_def)

lemma example_siblings_first:
  "concat (map (\<lambda>(p, c). examine_sibling env0 \<lparr> decl_file = a_c, decl_line = 15, decl_column = 5 \<rparr>
                   (query 15 (Some 5) True False) eSymbolContextEverything p c [])
             (siblings_first block_F))
   = [inlined_at 1 (rng 0x1010 0x20), inlined_at 1 (rng 0x1040 0x10), inlined_at 2 (rng 0x1018 8)]"
  by (simp add: example_defs examine_sibling_def GetRangeAtIndex_def
      LLDB_INVALID_COLUMN_NUMBER_def Let_def)

lemma example_exact_no_column:
  "examine_block env0 \<lparr> decl_file = a_c, decl_line = 15, decl_column = 0 \<rparr>
     (query 15 None True True) eSymbolContextEverything block_F [] = []"
  by (simp add: example_defs examine_sibling_def GetRangeAtIndex_def
      LLDB_INVALID_COLUMN_NUMBER_def Let_def)

lemma example_GetSupportFiles:
  "GetSupportFiles (Some debug_module) fresh_unit
     = Inr ([a_c], fresh_unit\<lparr> m_flags := 4, m_support_files := [a_c],
                               trace := [CallParseSupportFiles] \<rparr>)"
  by (simp add: GetSupportFiles_def fresh_unit_def CompileUnit_ctor_def debug_module_def
      debug_symfile_def silent_symfile_def Flags_IsClear_def Flags_Set_def
      flagsParsedSupportFiles_def apply_calls_def Let_def)

lemma example_FindFileIndexes: "FindFileIndexes env0 [a_c] a_c None = Some [0]"
  by (simp add: FindFileIndexes_def FindFileIndexes_loop.simps env0_def UINT32_MAX_def Let_def)

lemma example_GetLineTable:
  "GetLineTable (Some debug_module)
     (fresh_unit\<lparr> m_flags := 4, m_support_files := [a_c],
                  trace := [CallParseSupportFiles, CallSetLoadDebugInfoEnabled] \<rparr>)
     = Inr (Some table0, loaded_unit)"
  by (simp add: GetLineTable_def SetLineTable_def loaded_unit_def fresh_unit_def
      CompileUnit_ctor_def debug_module_def debug_symfile_def silent_symfile_def
      Flags_IsClear_def Flags_Set_def flagsParsedLineTable_def apply_calls_def Let_def)

lemma example_search_15:
  "find_line_entry env0 table0 [0] 0 (query 15 (Some 5) True False) (LineEntry_ctor env0)
     = (1, row 20 0x1010)"
  by (simp add: find_line_entry_def env0_def search_lines_def line_matches_def table0_def
      query_def row_def word_le_nat_alt)

subsection \<open>An inline call-site match ends the resolution\<close>

text \<open>
  Claim C4. When \<open>ResolveSymbolContext\<close> reaches the inline call-site search (the query
  has a line, the unit has matching support files, a symbol file and a line table, and
  the entry found meets the condition of lines 330 to 333) and the search appends at
  least one context, \<open>ResolveSymbolContext\<close> returns at once: its result is the list as
  the search left it, the forward scan of the line table is not run (the call returns
  also where that scan would not end), and no context of a line table entry, and no
  diagnostic, follows.
\<close>

theorem inline_match_returns_at_once:
  assumes "query_line spec \<noteq> LLDB_INVALID_LINE_NUMBER"
    and "GetSupportFiles module cu = Inr (support_files, cu1)"
    and "FindFileIndexes env support_files (GetFileSpec spec) realpath_prefixes = Some file_indexes"
    and "file_indexes \<noteq> []"
    and "module = Some m" and "GetSymbolFile m = Some symfile"
    and "GetLineTable module (cu1\<lparr>trace := trace cu1 @ [CallSetLoadDebugInfoEnabled]\<rparr>)
           = Inr (Some line_table, cu2)"
    and "find_line_entry env line_table file_indexes 0 spec (LineEntry_ctor env) = (line_idx, entry)"
    and "call_site_search_applies env spec scope entry"
    and "length sc_list < length (search_call_sites env spec scope entry sc_list)"
  shows "ResolveSymbolContext env module spec scope realpath_prefixes (cu, sc_list)
           = Some (Inr (cu2, search_call_sites env spec scope entry sc_list))"
proof -
  from assms(9) have inl: "GetCheckInlines spec"
    by (simp add: call_site_search_applies_def Let_def)
  have tbl: "resolve_in_line_table env spec scope line_table file_indexes sc (cu2, sc_list)
           = Some (cu2, search_call_sites env spec scope entry sc_list)" for sc
    using assms(8,9,10) by (simp add: resolve_in_line_table_def Let_def)
  show ?thesis
    using assms(1-7) inl by (simp add: ResolveSymbolContext_def Let_def tbl)
qed

lemma example_applies:
  "call_site_search_applies env0 (query 15 (Some 5) True False) eSymbolContextEverything
     (row 20 0x1010)"
  by (simp add: call_site_search_applies_def query_line_def query_column_num_def env0_def
      query_def row_def rng_def addr_def LLDB_INVALID_LINE_NUMBER_def UINT32_MAX_def
      eSymbolContextEverything_def eSymbolContextLineEntry_def Let_def)

lemma example_search_call_sites:
  "search_call_sites env0 (query 15 (Some 5) True False) eSymbolContextEverything
     (row 20 0x1010) []
   = [inlined_at 1 (rng 0x1010 0x20), inlined_at 2 (rng 0x1018 8), inlined_at 1 (rng 0x1040 0x10)]"
proof -
  have f: "CalculateSymbolContextFunction env0 (m_base_addr (le_range (row 20 0x1010))) = Some func_F"
    by (simp add: env0_def row_def rng_def addr_def word_le_nat_alt word_less_nat_alt)
  have d: "\<lparr> decl_file = GetFileSpec (query 15 (Some 5) True False),
             decl_line = query_line (query 15 (Some 5) True False),
             decl_column = ucast (query_column_num (query 15 (Some 5) True False)) \<rparr>
         = \<lparr> decl_file = a_c, decl_line = 15, decl_column = 5 \<rparr>"
    by (simp add: query_def query_line_def query_column_num_def)
  have b: "GetBlock func_F = block_F"
    by (simp add: func_F_def)
  show ?thesis
    unfolding search_call_sites_def Let_def f d
    by (simp only: option.case b example_examine_block)
qed

text \<open>
  The example of the spec: the query for line 15, column 5, finds the entry of line 20,
  the call sites of A, A1 and B match, and the entry of line 20 is not returned.
\<close>

theorem inline_match_returns_at_once_witness:
  "ResolveSymbolContext env0 (Some debug_module) (query 15 (Some 5) True False)
     eSymbolContextEverything None (fresh_unit, [])
   = Some (Inr (loaded_unit,
        [inlined_at 1 (rng 0x1010 0x20), inlined_at 2 (rng 0x1018 8),
         inlined_at 1 (rng 0x1040 0x10)]))"
proof -
  have l: "query_line (query 15 (Some 5) True False) \<noteq> LLDB_INVALID_LINE_NUMBER"
    by (simp add: query_line_def query_def LLDB_INVALID_LINE_NUMBER_def UINT32_MAX_def)
  have sf: "GetSupportFiles (Some debug_module) fresh_unit
     = Inr ([a_c], fresh_unit\<lparr> m_flags := 4, m_support_files := [a_c],
                               trace := [CallParseSupportFiles] \<rparr>)"
    by (rule example_GetSupportFiles)
  have fi: "FindFileIndexes env0 [a_c] (GetFileSpec (query 15 (Some 5) True False)) None = Some [0]"
    using example_FindFileIndexes by (simp add: query_def)
  have lt: "GetLineTable (Some debug_module)
      ((fresh_unit\<lparr> m_flags := 4, m_support_files := [a_c], trace := [CallParseSupportFiles] \<rparr>)
         \<lparr>trace := trace (fresh_unit\<lparr> m_flags := 4, m_support_files := [a_c],
                                      trace := [CallParseSupportFiles] \<rparr>)
                    @ [CallSetLoadDebugInfoEnabled]\<rparr>)
      = Inr (Some table0, loaded_unit)"
    using example_GetLineTable by simp
  have ne: "[0 :: 32 word] \<noteq> []" by simp
  have sy: "GetSymbolFile debug_module = Some debug_symfile"
    by (simp add: debug_module_def)
  have ln: "length ([] :: SymbolContext list)
      < length (search_call_sites env0 (query 15 (Some 5) True False) eSymbolContextEverything
                  (row 20 0x1010) [])"
    by (simp add: example_search_call_sites)
  from inline_match_returns_at_once[OF l sf fi ne refl sy lt example_search_15 example_applies ln]
  show ?thesis
    by (simp only: example_search_call_sites)
qed

subsection \<open>Exact queries without a column\<close>




subsection \<open>The contexts of inline call sites\<close>

lemma examine_sibling_cases:
  "examine_sibling env d spec scope parent sibling [] = [] \<or>
   (\<exists>inline_info start.
      GetInlinedFunctionInfo sibling = Some inline_info \<and>
      GetStartAddress parent = Some start \<and>
      m_ranges sibling \<noteq> [] \<and>
      examine_sibling env d spec scope parent sibling [] =
        [(CalculateSymbolContext env start scope)
           \<lparr>line_entry := (line_entry (CalculateSymbolContext env start scope))
              \<lparr>le_line := decl_line (GetCallSite inline_info),
               le_column := decl_column (GetCallSite inline_info),
               le_range := hd (m_ranges sibling)\<rparr>\<rparr>] \<and>
      (GetExactMatch spec \<longrightarrow>
         GetFileSpec spec = le_file (line_entry (CalculateSymbolContext env start scope)) \<and>
         GetLine spec = Some (decl_line (GetCallSite inline_info)) \<and>
         GetColumn spec = Some (decl_column (GetCallSite inline_info))))"
  by (auto simp: examine_sibling_def GetRangeAtIndex_def Let_def hd_conv_nth
      split: option.splits)

lemma examine_sibling_elem:
  assumes "c \<in> set (examine_sibling env d spec scope parent sibling [])"
  shows "\<exists>inline_info start.
           GetInlinedFunctionInfo sibling = Some inline_info \<and>
           GetStartAddress parent = Some start \<and>
           m_ranges sibling \<noteq> [] \<and>
           c = (CalculateSymbolContext env start scope)
                 \<lparr>line_entry := (line_entry (CalculateSymbolContext env start scope))
                    \<lparr>le_line := decl_line (GetCallSite inline_info),
                     le_column := decl_column (GetCallSite inline_info),
                     le_range := hd (m_ranges sibling)\<rparr>\<rparr> \<and>
           (GetExactMatch spec \<longrightarrow>
              GetFileSpec spec = le_file (line_entry c) \<and>
              GetLine spec = Some (le_line (line_entry c)) \<and>
              GetColumn spec = Some (le_column (line_entry c)))"
proof -
  from examine_sibling_cases[of env d spec scope parent sibling] assms
  obtain inline_info start where
    i: "GetInlinedFunctionInfo sibling = Some inline_info"
    and p: "GetStartAddress parent = Some start"
    and r: "m_ranges sibling \<noteq> []"
    and c: "c = (CalculateSymbolContext env start scope)
                 \<lparr>line_entry := (line_entry (CalculateSymbolContext env start scope))
                    \<lparr>le_line := decl_line (GetCallSite inline_info),
                     le_column := decl_column (GetCallSite inline_info),
                     le_range := hd (m_ranges sibling)\<rparr>\<rparr>"
    and e: "GetExactMatch spec \<longrightarrow>
         GetFileSpec spec = le_file (line_entry (CalculateSymbolContext env start scope)) \<and>
         GetLine spec = Some (decl_line (GetCallSite inline_info)) \<and>
         GetColumn spec = Some (decl_column (GetCallSite inline_info))"
    by auto
  from e have "GetExactMatch spec \<longrightarrow>
              GetFileSpec spec = le_file (line_entry c) \<and>
              GetLine spec = Some (le_line (line_entry c)) \<and>
              GetColumn spec = Some (le_column (line_entry c))"
    unfolding c by simp
  with i p r c show ?thesis by blast
qed

text \<open>
  Claim C1, as amended. The traversal only appends, and each context it appends comes
  from an inline block (\<open>sibling\<close>) of the tree and its parent: it is the context
  resolved from the parent block's start address with the caller's resolve scope, in
  which the line entry's line and column are the call site's and the line entry's
  address range is the first range of the inline block itself; the target, module,
  compile unit, function, block and symbol, and the line entry's file, are those of the
  resolved context. The context is appended only when the inline block has a first
  range. When the query asks for an exact match, it is appended only if the file, the
  line and the column of that line entry all equal the query's.
\<close>

theorem call_site_context_built:
  assumes "c \<in> set (drop (length sc_list) (examine_block env sought_decl spec scope blk sc_list))"
  shows "take (length sc_list) (examine_block env sought_decl spec scope blk sc_list) = sc_list
       \<and> (\<exists>parent sibling inline_info start.
           (parent, sibling) \<in> set (preorder blk) \<and>
           GetInlinedFunctionInfo sibling = Some inline_info \<and>
           GetStartAddress parent = Some start \<and>
           m_ranges sibling \<noteq> [] \<and>
           c = (CalculateSymbolContext env start scope)
                 \<lparr>line_entry := (line_entry (CalculateSymbolContext env start scope))
                    \<lparr>le_line := decl_line (GetCallSite inline_info),
                     le_column := decl_column (GetCallSite inline_info),
                     le_range := hd (m_ranges sibling)\<rparr>\<rparr> \<and>
           (GetExactMatch spec \<longrightarrow>
              GetFileSpec spec = le_file (line_entry c) \<and>
              GetLine spec = Some (le_line (line_entry c)) \<and>
              GetColumn spec = Some (le_column (line_entry c))))"
proof
  show "take (length sc_list) (examine_block env sought_decl spec scope blk sc_list) = sc_list"
    by (simp add: examine_block_preorder)
  from assms obtain parent sibling where
    ps: "(parent, sibling) \<in> set (preorder blk)"
    and c: "c \<in> set (examine_sibling env sought_decl spec scope parent sibling [])"
    by (auto simp: examine_block_preorder)
  from examine_sibling_elem[OF c] ps
  show "\<exists>parent sibling inline_info start.
           (parent, sibling) \<in> set (preorder blk) \<and>
           GetInlinedFunctionInfo sibling = Some inline_info \<and>
           GetStartAddress parent = Some start \<and>
           m_ranges sibling \<noteq> [] \<and>
           c = (CalculateSymbolContext env start scope)
                 \<lparr>line_entry := (line_entry (CalculateSymbolContext env start scope))
                    \<lparr>le_line := decl_line (GetCallSite inline_info),
                     le_column := decl_column (GetCallSite inline_info),
                     le_range := hd (m_ranges sibling)\<rparr>\<rparr> \<and>
           (GetExactMatch spec \<longrightarrow>
              GetFileSpec spec = le_file (line_entry c) \<and>
              GetLine spec = Some (le_line (line_entry c)) \<and>
              GetColumn spec = Some (le_column (line_entry c)))"
    by blast
qed

text \<open>The context of A1 in the example, for the exact query of line 15, column 5.\<close>

theorem call_site_context_built_witness:
  "inlined_at 2 (rng 0x1018 8)
     \<in> set (drop (length ([] :: SymbolContext list))
          (examine_block env0 \<lparr> decl_file = a_c, decl_line = 15, decl_column = 5 \<rparr>
             (query 15 (Some 5) True True) eSymbolContextEverything block_F []))
   \<and> (\<exists>parent sibling inline_info start.
         (parent, sibling) \<in> set (preorder block_F) \<and>
         GetInlinedFunctionInfo sibling = Some inline_info \<and>
         GetStartAddress parent = Some start \<and>
         inlined_at 2 (rng 0x1018 8) =
           (CalculateSymbolContext env0 start eSymbolContextEverything)
             \<lparr>line_entry := (line_entry (CalculateSymbolContext env0 start eSymbolContextEverything))
                \<lparr>le_line := decl_line (GetCallSite inline_info),
                 le_column := decl_column (GetCallSite inline_info),
                 le_range := hd (m_ranges sibling)\<rparr>\<rparr>)
   \<and> GetExactMatch (query 15 (Some 5) True True)
   \<and> GetFileSpec (query 15 (Some 5) True True) = le_file (line_entry (inlined_at 2 (rng 0x1018 8)))
   \<and> GetLine (query 15 (Some 5) True True) = Some (le_line (line_entry (inlined_at 2 (rng 0x1018 8))))
   \<and> GetColumn (query 15 (Some 5) True True) = Some (le_column (line_entry (inlined_at 2 (rng 0x1018 8))))"
proof -
  have e: "examine_block env0 \<lparr> decl_file = a_c, decl_line = 15, decl_column = 5 \<rparr>
             (query 15 (Some 5) True True) eSymbolContextEverything block_F []
           = [inlined_at 1 (rng 0x1010 0x20), inlined_at 2 (rng 0x1018 8),
              inlined_at 1 (rng 0x1040 0x10)]"
    by (simp add: example_defs examine_sibling_def GetRangeAtIndex_def
        LLDB_INVALID_COLUMN_NUMBER_def Let_def)
  have m: "inlined_at 2 (rng 0x1018 8)
     \<in> set (drop (length ([] :: SymbolContext list))
          (examine_block env0 \<lparr> decl_file = a_c, decl_line = 15, decl_column = 5 \<rparr>
             (query 15 (Some 5) True True) eSymbolContextEverything block_F []))"
    unfolding e by simp
  have x: "GetExactMatch (query 15 (Some 5) True True)"
    by (simp add: query_def)
  from call_site_context_built[OF m] m x show ?thesis
    by blast
qed

text \<open>
  Claim C1 as stated fails: the address range of an appended context is not the
  parent's. In the example the first context comes from the inline block A of the
  function's block: its range is A's, 0x1010 of size 0x20, neither the range of the line
  entry resolved from the parent's start address (0x1000, size 16) nor the range of the
  parent block (0x1000, size 0x100).
\<close>

theorem call_site_range_counterexample:
  "examine_block env0 \<lparr> decl_file = a_c, decl_line = 15, decl_column = 5 \<rparr>
     (query 15 (Some 5) True False) eSymbolContextEverything block_F []
     = [inlined_at 1 (rng 0x1010 0x20), inlined_at 2 (rng 0x1018 8), inlined_at 1 (rng 0x1040 0x10)]
   \<and> GetStartAddress block_F = Some (addr 0x1000)
   \<and> m_ranges block_F = [rng 0x1000 0x100]
   \<and> le_range (line_entry (CalculateSymbolContext env0 (addr 0x1000) eSymbolContextEverything))
        = rng 0x1000 16
   \<and> le_range (line_entry (inlined_at 1 (rng 0x1010 0x20))) = rng 0x1010 0x20
   \<and> rng 0x1010 0x20 \<noteq> rng 0x1000 16
   \<and> rng 0x1010 0x20 \<noteq> rng 0x1000 0x100"
  by (simp add: example_examine_block)
    (simp add: example_defs)

subsection \<open>The order of the traversal\<close>

text \<open>
  Claim C5, as amended. The traversal is depth first in preorder: each child block of a
  block is examined before the blocks below it, and all blocks below it before its next
  sibling; the contexts of the matching call sites are appended in that order.
\<close>

theorem call_site_traversal_preorder:
  "examine_block env sought_decl spec scope (Block uid info start ranges children) sc_list
     = sc_list @ concat (map (\<lambda>(p, c). examine_sibling env sought_decl spec scope p c [])
                          (preorder (Block uid info start ranges children)))
   \<and> preorder (Block uid info start ranges children)
       = concat (map (\<lambda>c. (Block uid info start ranges children, c) # preorder c) children)"
  by (simp only: examine_block_preorder preorder.simps simp_thms)

theorem call_site_traversal_preorder_witness:
  "examine_block env0 \<lparr> decl_file = a_c, decl_line = 15, decl_column = 5 \<rparr>
     (query 15 (Some 5) True False) eSymbolContextEverything block_F [inlined_at 9 (rng 0 0)]
   = [inlined_at 9 (rng 0 0), inlined_at 1 (rng 0x1010 0x20), inlined_at 2 (rng 0x1018 8),
      inlined_at 1 (rng 0x1040 0x10)]
   \<and> map (\<lambda>(p, c). (block_uid p, block_uid c)) (preorder block_F) = [(1, 2), (2, 3), (1, 4)]"
proof -
  have "examine_block env0 \<lparr> decl_file = a_c, decl_line = 15, decl_column = 5 \<rparr>
     (query 15 (Some 5) True False) eSymbolContextEverything block_F [inlined_at 9 (rng 0 0)]
     = [inlined_at 9 (rng 0 0)] @
       examine_block env0 \<lparr> decl_file = a_c, decl_line = 15, decl_column = 5 \<rparr>
         (query 15 (Some 5) True False) eSymbolContextEverything block_F []"
    using call_site_traversal_preorder[of env0 _ _ _ 1 None "Some (addr 0x1000)"
        "[rng 0x1000 0x100]" "[block_A, block_B]"]
    by (simp add: block_F_def)
  moreover have "map (\<lambda>(p, c). (block_uid p, block_uid c)) (preorder block_F)
      = [(1, 2), (2, 3), (1, 4)]"
    by (simp add: block_F_def block_A_def block_A1_def block_B_def)
  ultimately show ?thesis
    by (simp add: example_examine_block)
qed

text \<open>
  Claim C5 as stated fails: siblings are not visited before descendants. In the example
  the call site of A1, a child of A, is appended before that of B, the sibling of A;
  with the siblings first, B's would come before A1's.
\<close>

theorem call_site_traversal_counterexample:
  "examine_block env0 \<lparr> decl_file = a_c, decl_line = 15, decl_column = 5 \<rparr>
     (query 15 (Some 5) True False) eSymbolContextEverything block_F []
     = [inlined_at 1 (rng 0x1010 0x20), inlined_at 2 (rng 0x1018 8), inlined_at 1 (rng 0x1040 0x10)]
   \<and> concat (map (\<lambda>(p, c). examine_sibling env0 \<lparr> decl_file = a_c, decl_line = 15, decl_column = 5 \<rparr>
                       (query 15 (Some 5) True False) eSymbolContextEverything p c [])
                 (siblings_first block_F))
     = [inlined_at 1 (rng 0x1010 0x20), inlined_at 1 (rng 0x1040 0x10), inlined_at 2 (rng 0x1018 8)]
   \<and> inlined_at 2 (rng 0x1018 8) \<noteq> inlined_at 1 (rng 0x1040 0x10)"
  by (simp add: example_examine_block example_siblings_first)
    (simp add: inlined_at_def resolved_def)

subsection \<open>The forward scan of the line table\<close>

text \<open>
  Claim C3. Let \<open>ResolveSymbolContext\<close> reach the forward scan (the query has a line, the
  unit has matching support files, a symbol file and a line table, and the inline
  call-site search is not made or appends nothing), with a resolve scope other than the
  line entry alone. If the scan visits \<open>entries\<close> and then finds nothing more, the call
  returns, and what it has appended is one context for each of them, in their order:
  the base address of the entry is resolved; if the resolved context has this same
  compile unit, it is the context appended; if it has no compile unit and has a module,
  an error with the file address of that base address is reported to that module, and
  the bare context (the module, this unit and the entry) is appended; if it has another
  compile unit, the bare context is appended and nothing is reported. Nothing else is
  appended or reported; and the call returns only if the scan comes to an end.
\<close>

theorem forward_scan_consistency_guard:
  assumes "query_line spec \<noteq> LLDB_INVALID_LINE_NUMBER"
    and "FileSpec_Match env (GetFileSpec spec) (m_primary_support_file_sp cu) \<or> GetCheckInlines spec"
    and "GetSupportFiles module cu = Inr (support_files, cu1)"
    and "FindFileIndexes env support_files (GetFileSpec spec) realpath_prefixes = Some file_indexes"
    and "file_indexes \<noteq> []"
    and "module = Some m" and "GetSymbolFile m = Some symfile"
    and "GetLineTable module (cu1\<lparr>trace := trace cu1 @ [CallSetLoadDebugInfoEnabled]\<rparr>)
           = Inr (Some line_table, cu2)"
    and "find_line_entry env line_table file_indexes 0 spec (LineEntry_ctor env) = (line_idx, entry)"
    and "call_site_search_applies env spec scope entry \<longrightarrow>
           length (search_call_sites env spec scope entry sc_list) \<le> length sc_list"
    and "scope \<noteq> eSymbolContextLineEntry"
    and "found_entry = SourceLocationSpec_ctor (le_file entry) (le_line entry)
           (if GetColumn spec \<noteq> None then Some (le_column entry) else None) False True"
  shows "(scan_finds env line_table file_indexes found_entry line_idx entry entries \<longrightarrow>
            ResolveSymbolContext env module spec scope realpath_prefixes (cu, sc_list)
              = Some (Inr (cu2\<lparr>trace := trace cu2 @
                                 concat (map (guard_diagnostics env scope) entries)\<rparr>,
                           sc_list @ map (guarded_context env scope m (this_ptr cu)) entries)))
       \<and> (ResolveSymbolContext env module spec scope realpath_prefixes (cu, sc_list) = Some result \<longrightarrow>
            (\<exists>found. scan_finds env line_table file_indexes found_entry line_idx entry found))"
proof -
  let ?sc = "(SymbolContext_ctor env (Some m))\<lparr>comp_unit := Some (this_ptr cu)\<rparr>"
  have t: "this_ptr cu2 = this_ptr cu"
    using GetLineTable_this_ptr[OF assms(8)] GetSupportFiles_this_ptr[OF assms(3)] by simp
  have tbl: "resolve_in_line_table env spec scope line_table file_indexes ?sc (cu2, sc_list)
      = scan_line_table env scope line_table file_indexes found_entry ?sc line_idx entry (cu2, sc_list)"
  proof (cases "call_site_search_applies env spec scope entry")
    case True
    with assms(10) have "search_call_sites env spec scope entry sc_list = sc_list"
      by (simp add: search_call_sites_not_longer)
    with True assms(9,12) show ?thesis
      by (simp add: resolve_in_line_table_def forward_scan_def Let_def)
  next
    case False
    with assms(9,12) show ?thesis
      by (simp add: resolve_in_line_table_def forward_scan_def Let_def)
  qed
  have rsc: "ResolveSymbolContext env (Some m) spec scope realpath_prefixes (cu, sc_list)
      = map_option Inr (scan_line_table env scope line_table file_indexes found_entry ?sc
                          line_idx entry (cu2, sc_list))"
    using assms(1-8) by (auto simp add: ResolveSymbolContext_def Let_def tbl)
  show ?thesis
    unfolding assms(6)
  proof (intro conjI impI)
    assume "scan_finds env line_table file_indexes found_entry line_idx entry entries"
    from scan_finds_returns[OF this, of scope ?sc "(cu2, sc_list)"]
    show "ResolveSymbolContext env (Some m) spec scope realpath_prefixes (cu, sc_list)
              = Some (Inr (cu2\<lparr>trace := trace cu2 @
                                 concat (map (guard_diagnostics env scope) entries)\<rparr>,
                           sc_list @ map (guarded_context env scope m (this_ptr cu)) entries))"
      using fold_guarded[OF assms(11) t, of env m entries sc_list]
      by (simp add: rsc)
  next
    assume "ResolveSymbolContext env (Some m) spec scope realpath_prefixes (cu, sc_list) = Some result"
    then obtain st' where "scan_line_table env scope line_table file_indexes found_entry ?sc
                          line_idx entry (cu2, sc_list) = Some st'"
      by (auto simp add: rsc)
    then show "\<exists>found. scan_finds env line_table file_indexes found_entry line_idx entry found"
      by (rule scan_returns_finds)
  qed
qed

text \<open>
  The example: the query for line 30 finds the three entries of that line; the
  resolution of the first has this unit, that of the second has no unit (one error is
  reported, with its file address), and that of the third has another unit.
\<close>

theorem forward_scan_consistency_guard_witness:
  "scan_finds env0 table0 [0] (SourceLocationSpec_ctor a_c 30 None False True) 2 (row 30 0x2000)
     [row 30 0x2000, row 30 0x3000, row 30 0x4000]
   \<and> ResolveSymbolContext env0 (Some debug_module) (query 30 None False True)
       eSymbolContextEverything None (fresh_unit, [])
     = Some (Inr (loaded_unit\<lparr>trace := trace loaded_unit @ [ReportError 1 0x3000]\<rparr>,
          [resolved (Some 1) (Some 100) (Some 5) (row 30 0x2000),
           resolved (Some 1) (Some 100) None (row 30 0x3000),
           resolved (Some 1) (Some 100) None (row 30 0x4000)]))"
proof -
  let ?q = "query 30 None False True"
  let ?found = "SourceLocationSpec_ctor a_c 30 None False True"
  let ?entries = "[row 30 0x2000, row 30 0x3000, row 30 0x4000]"
  have l: "query_line ?q \<noteq> LLDB_INVALID_LINE_NUMBER"
    by (simp add: query_line_def query_def LLDB_INVALID_LINE_NUMBER_def UINT32_MAX_def)
  have pm: "FileSpec_Match env0 (GetFileSpec ?q) (m_primary_support_file_sp fresh_unit)
            \<or> GetCheckInlines ?q"
    by (simp add: env0_def query_def fresh_unit_def CompileUnit_ctor_def Let_def)
  have fi: "FindFileIndexes env0 [a_c] (GetFileSpec ?q) None = Some [0]"
    using example_FindFileIndexes by (simp add: query_def)
  have ne: "[0 :: 32 word] \<noteq> []" by simp
  have sy: "GetSymbolFile debug_module = Some debug_symfile"
    by (simp add: debug_module_def)
  have lt: "GetLineTable (Some debug_module)
      ((fresh_unit\<lparr> m_flags := 4, m_support_files := [a_c], trace := [CallParseSupportFiles] \<rparr>)
         \<lparr>trace := trace (fresh_unit\<lparr> m_flags := 4, m_support_files := [a_c],
                                      trace := [CallParseSupportFiles] \<rparr>)
                    @ [CallSetLoadDebugInfoEnabled]\<rparr>)
      = Inr (Some table0, loaded_unit)"
    using example_GetLineTable by simp
  have f0: "find_line_entry env0 table0 [0] 0 ?q (LineEntry_ctor env0) = (2, row 30 0x2000)"
    by (simp add: find_line_entry_def env0_def search_lines_def line_matches_def table0_def
        query_def row_def)
  have na: "call_site_search_applies env0 ?q eSymbolContextEverything (row 30 0x2000) \<longrightarrow>
      length (search_call_sites env0 ?q eSymbolContextEverything (row 30 0x2000) []) \<le> length ([] :: SymbolContext list)"
    by (simp add: call_site_search_applies_def query_def Let_def)
  have h: "eSymbolContextEverything \<noteq> eSymbolContextLineEntry"
    by (simp add: eSymbolContextEverything_def eSymbolContextLineEntry_def)
  have fe: "?found = SourceLocationSpec_ctor (le_file (row 30 0x2000)) (le_line (row 30 0x2000))
           (if GetColumn ?q \<noteq> None then Some (le_column (row 30 0x2000)) else None) False True"
    by (simp add: row_def query_def)
  have nxt: "find_line_entry env0 table0 [0] 3 ?found e = (3, row 30 0x3000)"
    "find_line_entry env0 table0 [0] 4 ?found e = (4, row 30 0x4000)"
    "find_line_entry env0 table0 [0] 5 ?found e = (UINT32_MAX, e)" for e
    by (simp_all add: find_line_entry_def env0_def search_lines_def line_matches_def table0_def
        SourceLocationSpec_ctor_def row_def a_c_def)
  have sf: "scan_finds env0 table0 [0] ?found 2 (row 30 0x2000) ?entries"
    by (simp add: nxt UINT32_MAX_def)
  have t: "this_ptr fresh_unit = 100"
    by (simp add: fresh_unit_def CompileUnit_ctor_def Let_def)
  have b: "m_base_addr (le_range (row l a)) = addr a" "GetFileAddress env0 (addr a) = a"
    "CalculateSymbolContext env0 = lookup_address" for l a
    by (simp_all add: row_def rng_def addr_def env0_def)
  have r: "lookup_address (addr 0x2000) eSymbolContextEverything
             = resolved (Some 1) (Some 100) (Some 5) (row 30 0x2000)"
    "lookup_address (addr 0x3000) eSymbolContextEverything
             = resolved (Some 1) None None (row 30 0x3000)"
    "lookup_address (addr 0x4000) eSymbolContextEverything
             = resolved (Some 1) (Some 200) None (row 30 0x4000)"
    by (simp_all add: lookup_address_def addr_def)
  have ctx: "map (guarded_context env0 eSymbolContextEverything debug_module 100) ?entries
      = [resolved (Some 1) (Some 100) (Some 5) (row 30 0x2000),
         resolved (Some 1) (Some 100) None (row 30 0x3000),
         resolved (Some 1) (Some 100) None (row 30 0x4000)]"
    by (simp add: guarded_context_def bare_context_def Let_def b r debug_module_def)
      (simp add: resolved_def)
  have errs: "concat (map (guard_diagnostics env0 eSymbolContextEverything) ?entries)
      = [ReportError 1 0x3000]"
    by (simp add: guard_diagnostics_def Let_def b r resolved_def)
  have "ResolveSymbolContext env0 (Some debug_module) ?q eSymbolContextEverything None
       (fresh_unit, [])
     = Some (Inr (loaded_unit\<lparr>trace := trace loaded_unit @ [ReportError 1 0x3000]\<rparr>,
          [resolved (Some 1) (Some 100) (Some 5) (row 30 0x2000),
           resolved (Some 1) (Some 100) None (row 30 0x3000),
           resolved (Some 1) (Some 100) None (row 30 0x4000)]))"
    using forward_scan_consistency_guard[OF l pm example_GetSupportFiles fi ne refl sy lt f0 na h fe,
        of "?entries", THEN conjunct1, rule_format, OF sf]
    by (simp only: t ctx errs append_Nil)
  with sf show ?thesis
    by (intro conjI)
qed

end
